theory Spec2Isabelle
  imports Complex_Main
begin

section \<open>JavaScript values used by the sources\<close>

text \<open>
  Strings are \<open>char list\<close>s. A character whose eighth bit is clear is the ASCII character
  with that code; the other characters stand for code units outside ASCII (which ones is
  immaterial: nothing below depends on them but through the parameters). On a string
  of ASCII characters the language fixes \<open>toLowerCase\<close>, \<open>toUpperCase\<close> and \<open>trim\<close>: only
  the letters \<open>A\<close> to \<open>Z\<close> (or \<open>a\<close> to \<open>z\<close>) change, and the white space and line
  terminators are the six characters of \<open>is_space\<close>. On a string with a character outside
  ASCII the three functions follow the Unicode tables of the runtime; there they are the
  parameters \<open>lowerCaseOutsideAscii\<close>, \<open>upperCaseOutsideAscii\<close> and \<open>trimOutsideAscii\<close>
  of the record \<open>Runtime\<close> below.
\<close>

definition isAscii :: "string \<Rightarrow> bool" where
  "isAscii s = list_all (\<lambda>c. \<not> digit7 c) s"

definition lower_char :: "char \<Rightarrow> char" where
  "lower_char c =
     (case map_of (zip ''ABCDEFGHIJKLMNOPQRSTUVWXYZ'' ''abcdefghijklmnopqrstuvwxyz'') c of
        Some d \<Rightarrow> d
      | None \<Rightarrow> c)"

definition upper_char :: "char \<Rightarrow> char" where
  "upper_char c =
     (case map_of (zip ''abcdefghijklmnopqrstuvwxyz'' ''ABCDEFGHIJKLMNOPQRSTUVWXYZ'') c of
        Some d \<Rightarrow> d
      | None \<Rightarrow> c)"

definition is_space :: "char \<Rightarrow> bool" where
  "is_space c = (c \<in> set [CHR '' '', CHR 0x09, CHR 0x0A, CHR 0x0B, CHR 0x0C, CHR 0x0D])"

definition trimSpaces :: "string \<Rightarrow> string" where
  "trimSpaces s = rev (dropWhile is_space (rev (dropWhile is_space s)))"

text \<open>\<open>s.includes(t)\<close>: \<open>t\<close> occurs in \<open>s\<close> as a contiguous substring.\<close>

fun includes_str :: "string \<Rightarrow> string \<Rightarrow> bool" where
  "includes_str [] t = (t = [])"
| "includes_str (c # s) t = (take (length t) (c # s) = t \<or> includes_str s t)"

fun join_with :: "string \<Rightarrow> string list \<Rightarrow> string" where
  "join_with sep [] = []"
| "join_with sep [x] = x"
| "join_with sep (x # y # ys) = x @ sep @ join_with sep (y # ys)"

text \<open>
  A value of JSON: what the extraction model produces and \<open>JSON.parse\<close> returns. An object
  is the list of its own properties, each of them once.
\<close>

datatype json =
    JNull
  | JBool bool
  | JNum real
  | JStr string
  | JArr "json list"
  | JObj "(string \<times> json) list"

text \<open>
  Numbers are reals (IEEE infinities and rounding are outside the model; \<open>NaN\<close> is the
  \<open>None\<close> of a \<open>real option\<close> where a conversion can produce it). The built-ins of the
  language that the sources call and that are not written out here are the fields of the
  record \<open>Runtime\<close>:
  \<^item> \<open>lowerCaseOutsideAscii\<close>, \<open>upperCaseOutsideAscii\<close>, \<open>trimOutsideAscii\<close>:
    \<open>toLowerCase\<close>, \<open>toUpperCase\<close> and \<open>trim\<close> on the strings that have a character
    outside ASCII;
  \<^item> \<open>numToString\<close>: the conversion of a number to a string, as in a template literal;
  \<^item> \<open>strToNum\<close>: the conversion of a string to a number (\<open>None\<close> is \<open>NaN\<close>);
  \<^item> \<open>JSON_parse\<close>: \<open>JSON.parse\<close> (\<open>None\<close> is its \<open>SyntaxError\<close>).
\<close>

record Runtime =
  lowerCaseOutsideAscii :: "string \<Rightarrow> string"
  upperCaseOutsideAscii :: "string \<Rightarrow> string"
  trimOutsideAscii :: "string \<Rightarrow> string"
  numToString :: "real \<Rightarrow> string"
  strToNum :: "string \<Rightarrow> real option"
  JSON_parse :: "string \<Rightarrow> json option"

definition toLowerCase :: "'r Runtime_scheme \<Rightarrow> string \<Rightarrow> string" where
  "toLowerCase js s = (if isAscii s then map lower_char s else lowerCaseOutsideAscii js s)"

definition toUpperCase :: "'r Runtime_scheme \<Rightarrow> string \<Rightarrow> string" where
  "toUpperCase js s = (if isAscii s then map upper_char s else upperCaseOutsideAscii js s)"

definition trim :: "'r Runtime_scheme \<Rightarrow> string \<Rightarrow> string" where
  "trim js s = (if isAscii s then trimSpaces s else trimOutsideAscii js s)"

text \<open>
  For concrete evaluation, \<open>numToString2\<close> is the conversion of a number to a string on
  amounts with at most two decimal places (\<open>5\<close> gives \<open>5\<close>, \<open>5.1\<close> gives \<open>5.1\<close>,
  \<open>-5.01\<close> gives \<open>-5.01\<close>).
\<close>

function showNat :: "nat \<Rightarrow> string" where
  "showNat n =
     (if n < 10 then [''0123456789'' ! n]
      else showNat (n div 10) @ [''0123456789'' ! (n mod 10)])"
  by pat_completeness auto
termination
  by (relation "measure (\<lambda>n. n)") auto

definition numToString2 :: "real \<Rightarrow> string" where
  "numToString2 x =
     (let cents = nat \<lfloor>\<bar>x\<bar> * 100\<rfloor>;
          whole = cents div 100;
          frac = cents mod 100
      in (if x < 0 \<and> cents \<noteq> 0 then ''-'' else '''') @ showNat whole @
         (if frac = 0 then ''''
          else if frac mod 10 = 0 then ''.'' @ showNat (frac div 10)
          else ''.'' @ showNat (frac div 10) @ showNat (frac mod 10)))"

section \<open>Reconciliation layer: display expenses (display-transformers)\<close>

record DisplayExpense =
  de_id :: string
  de_date :: string
  de_description :: string
  de_merchant :: string
  de_category :: string
  amount :: real
  originalAmount :: real
  originalCurrency :: string
  de_currency :: string
  createdAt :: string

record DisplayExpenseWithDuplicate = DisplayExpense +
  isDuplicate :: bool

text \<open>
  \<open>Partial<DisplayExpenseWithDuplicate> & { id: string }\<close>: every field but the id may be
  absent.
\<close>

record DisplayExpenseUpdate =
  upd_id :: string
  upd_date :: "string option"
  upd_description :: "string option"
  upd_merchant :: "string option"
  upd_category :: "string option"
  upd_amount :: "real option"
  upd_originalAmount :: "real option"
  upd_originalCurrency :: "string option"
  upd_currency :: "string option"
  upd_createdAt :: "string option"
  upd_isDuplicate :: "bool option"

text \<open>\<open>{ ...expense, isDuplicate }\<close>\<close>

definition withDuplicate :: "DisplayExpense \<Rightarrow> bool \<Rightarrow> DisplayExpenseWithDuplicate" where
  "withDuplicate e d = DisplayExpense.extend e (DisplayExpenseWithDuplicate.fields d)"

text \<open>A \<open>DisplayExpenseWithDuplicate\<close> passed where a \<open>DisplayExpense\<close> is expected.\<close>

definition asDisplayExpense :: "DisplayExpenseWithDuplicate \<Rightarrow> DisplayExpense" where
  "asDisplayExpense e = DisplayExpense.truncate e"

text \<open>
  The key of \<open>recalculateDuplicates\<close>:
  \<^verbatim>\<open>`${expense.date}-${normalizedMerchant}-${expense.amount}`\<close> with
  \<open>normalizedMerchant = expense.merchant.toLowerCase().trim()\<close>.
\<close>

definition combination :: "'r Runtime_scheme \<Rightarrow> DisplayExpense \<Rightarrow> string" where
  "combination js expense =
     de_date expense @ ''-'' @ trim js (toLowerCase js (de_merchant expense)) @ ''-'' @
     numToString js (amount expense)"

text \<open>
  The \<open>map\<close> of \<open>recalculateDuplicates\<close>, with the set \<open>seenCombinations\<close> that its
  callback mutates passed along.
\<close>

fun recalculateFrom ::
  "'r Runtime_scheme \<Rightarrow> string set \<Rightarrow> DisplayExpense list \<Rightarrow> DisplayExpenseWithDuplicate list"
where
  "recalculateFrom js seenCombinations [] = []"
| "recalculateFrom js seenCombinations (expense # rest) =
     withDuplicate expense (combination js expense \<in> seenCombinations) #
     recalculateFrom js (insert (combination js expense) seenCombinations) rest"

definition recalculateDuplicates ::
  "'r Runtime_scheme \<Rightarrow> DisplayExpense list \<Rightarrow> DisplayExpenseWithDuplicate list"
where
  "recalculateDuplicates js expenses = recalculateFrom js {} expenses"

text \<open>\<open>{ ...exp, ...updatedExpense }\<close>: the fields present in the update win.\<close>

definition mergeUpdate ::
  "DisplayExpenseWithDuplicate \<Rightarrow> DisplayExpenseUpdate \<Rightarrow> DisplayExpenseWithDuplicate"
where
  "mergeUpdate ex u =
     \<lparr> de_id = upd_id u,
       de_date = (case upd_date u of Some v \<Rightarrow> v | None \<Rightarrow> de_date ex),
       de_description = (case upd_description u of Some v \<Rightarrow> v | None \<Rightarrow> de_description ex),
       de_merchant = (case upd_merchant u of Some v \<Rightarrow> v | None \<Rightarrow> de_merchant ex),
       de_category = (case upd_category u of Some v \<Rightarrow> v | None \<Rightarrow> de_category ex),
       amount = (case upd_amount u of Some v \<Rightarrow> v | None \<Rightarrow> amount ex),
       originalAmount = (case upd_originalAmount u of Some v \<Rightarrow> v | None \<Rightarrow> originalAmount ex),
       originalCurrency =
         (case upd_originalCurrency u of Some v \<Rightarrow> v | None \<Rightarrow> originalCurrency ex),
       de_currency = (case upd_currency u of Some v \<Rightarrow> v | None \<Rightarrow> de_currency ex),
       createdAt = (case upd_createdAt u of Some v \<Rightarrow> v | None \<Rightarrow> createdAt ex),
       isDuplicate = (case upd_isDuplicate u of Some v \<Rightarrow> v | None \<Rightarrow> isDuplicate ex) \<rparr>"

definition updateExpenseInArray ::
  "'r Runtime_scheme \<Rightarrow> DisplayExpenseWithDuplicate list \<Rightarrow> DisplayExpenseUpdate \<Rightarrow>
   DisplayExpenseWithDuplicate list"
where
  "updateExpenseInArray js expenses updatedExpense =
     (let updated =
        map (\<lambda>ex. if de_id ex = upd_id updatedExpense then mergeUpdate ex updatedExpense
                  else ex) expenses
      in recalculateDuplicates js (map asDisplayExpense updated))"

definition addExpenseToArray ::
  "'r Runtime_scheme \<Rightarrow> DisplayExpenseWithDuplicate list \<Rightarrow> DisplayExpense \<Rightarrow>
   DisplayExpenseWithDuplicate list"
where
  "addExpenseToArray js expenses newExpense =
     (let allExpenses = newExpense # map asDisplayExpense expenses
      in recalculateDuplicates js allExpenses)"

definition removeExpenseFromArray ::
  "'r Runtime_scheme \<Rightarrow> DisplayExpenseWithDuplicate list \<Rightarrow> string \<Rightarrow>
   DisplayExpenseWithDuplicate list"
where
  "removeExpenseFromArray js expenses expenseId =
     (let filtered = filter (\<lambda>ex. de_id ex \<noteq> expenseId) expenses
      in recalculateDuplicates js (map asDisplayExpense filtered))"

text \<open>
  The triple the duplicate heuristic is described by: date, lowercased and trimmed
  merchant, amount.
\<close>

definition triple :: "'r Runtime_scheme \<Rightarrow> DisplayExpense \<Rightarrow> string \<times> string \<times> real" where
  "triple js expense =
     (de_date expense, trim js (toLowerCase js (de_merchant expense)), amount expense)"

definition sevenEleven :: DisplayExpense where
  "sevenEleven =
     \<lparr> de_id = ''e1'', de_date = ''2024-01-01'', de_description = ''Snacks'',
       de_merchant = ''7-Eleven'', de_category = ''Groceries'', amount = 5,
       originalAmount = 5, originalCurrency = ''SGD'', de_currency = ''SGD'',
       createdAt = ''2024-01-02 08:00:00.000Z'' \<rparr>"

definition elevenOddDate :: DisplayExpense where
  "elevenOddDate =
     \<lparr> de_id = ''e2'', de_date = ''2024-01-01-7'', de_description = ''Lunch'',
       de_merchant = ''Eleven'', de_category = ''Dining'', amount = 5,
       originalAmount = 5, originalCurrency = ''SGD'', de_currency = ''SGD'',
       createdAt = ''2024-01-02 08:00:01.000Z'' \<rparr>"

definition coffee :: DisplayExpense where
  "coffee =
     \<lparr> de_id = ''a'', de_date = ''2024-01-01'', de_description = ''Coffee'',
       de_merchant = ''Starbucks'', de_category = ''Dining'', amount = 5,
       originalAmount = 5, originalCurrency = ''SGD'', de_currency = ''SGD'',
       createdAt = ''2024-01-02 08:00:00.000Z'' \<rparr>"

section \<open>Reconciliation layer: statement status (use-statement-status)\<close>

datatype StatementStatus = Processing | Completed | Failed

record StatementStatusData =
  ssd_id :: string
  fileName :: string
  ssd_status :: StatementStatus
  updatedAt :: string

record PocketbaseStatementRecord =
  rec_id :: string
  file_name :: string
  rec_status :: StatementStatus
  updated_at :: "string option"
  updated :: "string option"

text \<open>A realtime event of the \<open>statements\<close> collection: its action and its record.\<close>

record StatementEvent =
  ev_action :: string
  ev_record :: PocketbaseStatementRecord

text \<open>
  \<open>toStatusDisplay\<close>; \<open>now\<close> is the value of \<open>new Date().toISOString()\<close> at the call.
\<close>

definition toStatusDisplay :: "string \<Rightarrow> PocketbaseStatementRecord \<Rightarrow> StatementStatusData" where
  "toStatusDisplay now r =
     \<lparr> ssd_id = rec_id r,
       fileName = file_name r,
       ssd_status = rec_status r,
       updatedAt =
         (case updated_at r of
            Some t \<Rightarrow> t
          | None \<Rightarrow> (case updated r of Some t \<Rightarrow> t | None \<Rightarrow> now)) \<rparr>"

text \<open>
  The guard of the subscription's callback:
  \<open>statementIds?.length && !statementIds.includes(event.record.id)\<close>.
\<close>

definition ignored :: "string list option \<Rightarrow> StatementEvent \<Rightarrow> bool" where
  "ignored statementIds event =
     (case statementIds of
        None \<Rightarrow> False
      | Some ids \<Rightarrow> ids \<noteq> [] \<and> rec_id (ev_record event) \<notin> set ids)"

text \<open>
  The callback of the subscription in \<open>useStatementStatus\<close>, as the function from the
  previous list of statements to the next one. \<open>getTime s\<close> is
  \<open>new Date(s).getTime()\<close> (a library function, taken as a parameter; timestamps that do
  not parse are outside the model). The comparator \<open>getTime b - getTime a\<close> sorts by
  descending time, and the sort is stable.
\<close>

definition onStatementEvent ::
  "(string \<Rightarrow> int) \<Rightarrow> string \<Rightarrow> string list option \<Rightarrow> StatementStatusData list \<Rightarrow>
   StatementEvent \<Rightarrow> StatementStatusData list"
where
  "onStatementEvent getTime now statementIds prev event =
     (if ignored statementIds event then prev
      else if ev_action event = ''delete''
      then filter (\<lambda>item. ssd_id item \<noteq> rec_id (ev_record event)) prev
      else
        (let next = toStatusDisplay now (ev_record event);
             updated = filter (\<lambda>item. ssd_id item \<noteq> ssd_id next) prev;
             merged = next # updated
         in sort_key (\<lambda>item. - getTime (updatedAt item)) merged))"

text \<open>The events of a subscription, applied in their order of arrival.\<close>

definition onStatementEvents ::
  "(string \<Rightarrow> int) \<Rightarrow> string \<Rightarrow> string list option \<Rightarrow> StatementStatusData list \<Rightarrow>
   StatementEvent list \<Rightarrow> StatementStatusData list"
where
  "onStatementEvents getTime now statementIds prev events =
     foldl (onStatementEvent getTime now statementIds) prev events"

text \<open>The record the view holds for a statement id.\<close>

definition retained :: "StatementStatusData list \<Rightarrow> string \<Rightarrow> StatementStatusData option" where
  "retained statements sid = find (\<lambda>item. ssd_id item = sid) statements"

text \<open>
  The last event of a list, in its order of arrival, that the callback does not ignore
  and that carries the statement id \<open>sid\<close>.
\<close>

definition lastArrived ::
  "string list option \<Rightarrow> string \<Rightarrow> StatementEvent list \<Rightarrow> StatementEvent option"
where
  "lastArrived statementIds sid events =
     (case rev (filter (\<lambda>event. \<not> ignored statementIds event \<and> rec_id (ev_record event) = sid)
                  events) of
        [] \<Rightarrow> None
      | event # _ \<Rightarrow> Some event)"

text \<open>
  \<open>new Date(s).getTime()\<close> on the two timestamps of the examples below, in milliseconds.
\<close>

definition exampleGetTime :: "string \<Rightarrow> int" where
  "exampleGetTime s =
     (if s = ''2024-01-01 10:00:00.000Z'' then 1704103200000
      else if s = ''2024-01-01 09:00:00.000Z'' then 1704099600000
      else 0)"

definition heldCompleted :: StatementStatusData where
  "heldCompleted =
     \<lparr> ssd_id = ''s1'', fileName = ''jan.pdf'', ssd_status = Completed,
       updatedAt = ''2024-01-01 10:00:00.000Z'' \<rparr>"

definition staleProcessing :: StatementEvent where
  "staleProcessing =
     \<lparr> ev_action = ''update'',
       ev_record =
         \<lparr> rec_id = ''s1'', file_name = ''jan.pdf'', rec_status = Processing,
           updated_at = Some ''2024-01-01 09:00:00.000Z'', updated = None \<rparr> \<rparr>"


section \<open>Thrown values\<close>

text \<open>
  What a \<open>throw\<close> carries: an \<open>Error\<close> with its message (a \<open>TypeError\<close>, a
  \<open>SyntaxError\<close> and the error of a failed backend request are such errors), a
  \<open>ZodError\<close> with its issues (path and message), or a value that is not an instance of
  \<open>Error\<close>. A function that may throw returns \<open>thrown + 'a\<close>, the thrown value on the
  left.
\<close>

datatype thrown = Error string | ZodError "(string \<times> string) list" | NotAnError

definition issueText :: "string \<times> string \<Rightarrow> string" where
  "issueText issue = fst issue @ '': '' @ snd issue"

text \<open>
  \<open>error instanceof Error ? error.message : fallback\<close>. A \<open>ZodError\<close> is an instance of
  \<open>Error\<close>; its message, a rendering of its issues, is given here by their texts.
\<close>

definition messageOr :: "string \<Rightarrow> thrown \<Rightarrow> string" where
  "messageOr fallback err =
     (case err of
        Error m \<Rightarrow> m
      | ZodError issues \<Rightarrow> join_with '', '' (map issueText issues)
      | NotAnError \<Rightarrow> fallback)"

section \<open>Records of the ingestion pipeline (types/expense, types/category)\<close>

record AIExpenseInput =
  date :: string
  description :: string
  merchant :: string
  category :: string
  original_amount :: real
  original_currency :: string

record ExpenseInsertData =
  statement_id :: string
  user_id :: string
  ins_date :: string
  ins_description :: string
  ins_merchant :: "string option"
  amount_sgd :: real
  ins_original_amount :: real
  ins_original_currency :: string
  currency :: string
  ins_category :: string
  category_id :: "string option"
  line_hash :: string

record CategoryRow =
  cat_id :: string
  cat_user_id :: string
  cat_name :: string
  cat_description :: "string option"
  is_default :: bool

record MerchantMapping =
  mm_id :: string
  mm_user_id :: string
  merchant_name :: string
  mm_category :: string

definition MAX_CATEGORIES_PER_USER :: nat where
  "MAX_CATEGORIES_PER_USER = 20"

section \<open>The persistence boundary\<close>

text \<open>
  The collections of the PocketBase backend, in the order in which a list request returns
  their rows.
\<close>

record Store =
  expenses :: "ExpenseInsertData list"
  categories :: "CategoryRow list"
  merchant_mappings :: "MerchantMapping list"
  statements :: "(string \<times> StatementStatus) list"

text \<open>The requests the modelled functions send to the backend.\<close>

datatype request =
    ListCategories string
  | CountCategories string
  | CreateCategory string string
  | FirstMerchantMapping string string
  | CreateExpense ExpenseInsertData
  | UpdateStatement string StatementStatus

text \<open>
  What lies outside the repository's sources, taken as parameters in addition to the
  built-ins of the language:
  \<^item> \<open>fault\<close>: the requests the backend fails for a reason of its own (network, rules,
    validation), with the message of the error;
  \<^item> \<open>uniqueMessage\<close>, \<open>requiredMessage\<close>, \<open>notFoundMessage\<close>: the messages of the
    errors of a violated unique index, of an empty required field and of a missing record;
  \<^item> \<open>newId\<close>: the id the backend gives a created category, from the rows of the
    collection;
  \<^item> \<open>sha256\<close>: the hex digest of \<open>node:crypto\<close>;
  \<^item> \<open>elementStream\<close>: \<open>streamObject({ output: "array", schema, ... }).elementStream\<close>
    of the \<open>ai\<close> library. For the validation function of the schema, the document
    and the list of categories of the prompt, it gives the elements the stream delivers,
    in order, and the error the stream ends with, if any. The library validates the items
    of the model's output with the schema and delivers validated values; what becomes of
    an item whose validation fails or throws is decided by the library.
\<close>

text \<open>
  Modelled from the spec: \<open>convertToSGD\<close> (\<open>lib/utils/currency\<close> is not among the
  sources) converts an amount in a currency at a date to the base currency and degrades
  to the identity conversion when the rate source is unavailable, so that it always
  returns an amount. It is the parameter \<open>convertToSGD\<close>.
\<close>

record Env = Runtime +
  fault :: "request \<Rightarrow> string option"
  uniqueMessage :: string
  requiredMessage :: string
  notFoundMessage :: string
  newId :: "CategoryRow list \<Rightarrow> string"
  convertToSGD :: "real \<Rightarrow> string \<Rightarrow> string \<Rightarrow> real"
  sha256 :: "string \<Rightarrow> string"
  elementStream ::
    "(json \<Rightarrow> thrown + AIExpenseInput) \<Rightarrow> string \<Rightarrow> string list \<Rightarrow>
     AIExpenseInput list \<times> thrown option"

text \<open>
  The filters of the requests are template literals such as
  \<^verbatim>\<open>`user_id = "${userId}"`\<close>, with the value interpolated as it is. They are read as
  the equalities they are written for. A value with a double quote or a backslash in it
  gives another filter expression: a request that the backend rejects as malformed is one
  of the requests of \<open>fault\<close>, and the evaluation of such an expression when the
  backend accepts it is outside the model.
\<close>

text \<open>
  \<open>pb.collection("categories").getFullList({ filter: `user_id = "${userId}"` })\<close>
\<close>

definition categories_getFullList :: "Env \<Rightarrow> Store \<Rightarrow> string \<Rightarrow> thrown + CategoryRow list" where
  "categories_getFullList env st userId =
     (case fault env (ListCategories userId) of
        Some m \<Rightarrow> Inl (Error m)
      | None \<Rightarrow> Inr (filter (\<lambda>c. cat_user_id c = userId) (categories st)))"

text \<open>\<open>getList(1, 1, { filter }).totalItems\<close>\<close>

definition categories_totalItems :: "Env \<Rightarrow> Store \<Rightarrow> string \<Rightarrow> thrown + nat" where
  "categories_totalItems env st userId =
     (case fault env (CountCategories userId) of
        Some m \<Rightarrow> Inl (Error m)
      | None \<Rightarrow> Inr (length (filter (\<lambda>c. cat_user_id c = userId) (categories st))))"

text \<open>
  \<open>pb.collection("categories").create(...)\<close>. The collection has a required \<open>name\<close>
  and the unique index \<open>(user_id, lower(name))\<close>; \<open>lower\<close> is the function of SQLite,
  which folds the letters \<open>A\<close> to \<open>Z\<close> and leaves every other character as it is.
\<close>

definition sqlite_lower :: "string \<Rightarrow> string" where
  "sqlite_lower s = map lower_char s"

definition categories_create ::
  "Env \<Rightarrow> Store \<Rightarrow> string \<Rightarrow> string \<Rightarrow> string option \<Rightarrow> thrown + Store \<times> CategoryRow"
where
  "categories_create env st userId name descr =
     (case fault env (CreateCategory userId name) of
        Some m \<Rightarrow> Inl (Error m)
      | None \<Rightarrow>
          if name = [] then Inl (Error (requiredMessage env))
          else if list_ex (\<lambda>c. cat_user_id c = userId \<and>
                                sqlite_lower (cat_name c) = sqlite_lower name) (categories st)
          then Inl (Error (uniqueMessage env))
          else
            (let row = \<lparr> cat_id = newId env (categories st), cat_user_id = userId,
                          cat_name = name, cat_description = descr, is_default = False \<rparr>
             in Inr (st\<lparr>categories := categories st @ [row]\<rparr>, row)))"

text \<open>
  \<open>getList(1, 1, { filter: `user_id = "${userId}" && merchant_name = "${normalized}"` })\<close>
  and \<open>list.items?.[0] ?? null\<close>.
\<close>

definition merchant_mappings_first ::
  "Env \<Rightarrow> Store \<Rightarrow> string \<Rightarrow> string \<Rightarrow> thrown + MerchantMapping option"
where
  "merchant_mappings_first env st userId normalized =
     (case fault env (FirstMerchantMapping userId normalized) of
        Some m \<Rightarrow> Inl (Error m)
      | None \<Rightarrow>
          Inr (find (\<lambda>m. mm_user_id m = userId \<and> merchant_name m = normalized)
                 (merchant_mappings st)))"

text \<open>
  \<open>pb.collection("expenses").create(record)\<close>. The collection has the unique index
  \<open>(user_id, line_hash)\<close>.
\<close>

definition expenses_create :: "Env \<Rightarrow> Store \<Rightarrow> ExpenseInsertData \<Rightarrow> thrown + Store" where
  "expenses_create env st r =
     (case fault env (CreateExpense r) of
        Some m \<Rightarrow> Inl (Error m)
      | None \<Rightarrow>
          if list_ex (\<lambda>x. user_id x = user_id r \<and> line_hash x = line_hash r) (expenses st)
          then Inl (Error (uniqueMessage env))
          else Inr (st\<lparr>expenses := expenses st @ [r]\<rparr>))"

text \<open>\<open>pb.collection("statements").update(statementId, { status })\<close>\<close>

definition statements_updateStatus ::
  "Env \<Rightarrow> Store \<Rightarrow> string \<Rightarrow> StatementStatus \<Rightarrow> thrown + Store"
where
  "statements_updateStatus env st statementId status =
     (case fault env (UpdateStatement statementId status) of
        Some m \<Rightarrow> Inl (Error m)
      | None \<Rightarrow>
          if list_ex (\<lambda>row. fst row = statementId) (statements st)
          then Inr (st\<lparr>statements :=
                      map (\<lambda>row. if fst row = statementId then (statementId, status) else row)
                        (statements st)\<rparr>)
          else Inl (Error (notFoundMessage env)))"

text \<open>The status the backend holds for a statement.\<close>

definition statusOf :: "Store \<Rightarrow> string \<Rightarrow> StatementStatus option" where
  "statusOf st statementId = map_of (statements st) statementId"

section \<open>Category resolution (actions/categories, category-resolver)\<close>

definition getOrCreateCategoryByName ::
  "Env \<Rightarrow> Store \<Rightarrow> string \<Rightarrow> string \<Rightarrow> Store \<times> (thrown + string)"
where
  "getOrCreateCategoryByName env st categoryName userId =
     (case categories_getFullList env st userId of
        Inl err \<Rightarrow> (st, Inl err)
      | Inr existingCategories \<Rightarrow>
          (case find (\<lambda>c. toLowerCase env (cat_name c) = toLowerCase env categoryName)
                  existingCategories of
             Some match \<Rightarrow> (st, Inr (cat_id match))
           | None \<Rightarrow>
               (case categories_create env st userId categoryName None of
                  Inr (st', created) \<Rightarrow> (st', Inr (cat_id created))
                | Inl err \<Rightarrow>
                    (st, Inl (Error (''Failed to create category: '' @
                                     messageOr ''Failed to create category'' err))))))"

definition resolveCategoryNameToId ::
  "Env \<Rightarrow> Store \<Rightarrow> string \<Rightarrow> string \<Rightarrow> Store \<times> (thrown + string)"
where
  "resolveCategoryNameToId env st userId categoryName =
     (case categories_getFullList env st userId of
        Inl err \<Rightarrow> (st, Inl err)
      | Inr existingCategories \<Rightarrow>
          (case find (\<lambda>c. toLowerCase env (cat_name c) = toLowerCase env categoryName)
                  existingCategories of
             Some match \<Rightarrow> (st, Inr (cat_id match))
           | None \<Rightarrow>
               (case categories_create env st userId categoryName None of
                  Inr (st', newCategory) \<Rightarrow> (st', Inr (cat_id newCategory))
                | Inl err \<Rightarrow> (st, Inl err))))"

text \<open>
  \<open>categoryInsertSchema.parse\<close>: the name has between 1 and 50 characters. The texts of
  zod's messages are not part of the sources; \<open>tooSmall\<close> and \<open>tooBig\<close> stand for them.
\<close>

definition tooSmall :: string where
  "tooSmall = ''String must contain at least 1 character(s)''"

definition tooBig :: string where
  "tooBig = ''String must contain at most 50 character(s)''"

definition categoryInsertSchema_parse ::
  "string \<times> string option \<Rightarrow> thrown + string \<times> string option"
where
  "categoryInsertSchema_parse input =
     (if fst input = [] then Inl (ZodError [(''name'', tooSmall)])
      else if 50 < length (fst input) then Inl (ZodError [(''name'', tooBig)])
      else Inr input)"

text \<open>
  \<open>createCategory\<close>; \<open>auth\<close> is the user id of the session, if there is one, and the
  input is the name and the optional description.
\<close>

definition createCategory ::
  "Env \<Rightarrow> string option \<Rightarrow> Store \<Rightarrow> string \<times> string option \<Rightarrow> Store \<times> (thrown + CategoryRow)"
where
  "createCategory env auth st input =
     (case auth of
        None \<Rightarrow> (st, Inl (Error ''User not authenticated''))
      | Some userId \<Rightarrow>
          if userId = [] then (st, Inl (Error ''User not authenticated''))
          else
            (case categoryInsertSchema_parse input of
               Inl err \<Rightarrow> (st, Inl err)
             | Inr validatedInput \<Rightarrow>
                 (case categories_totalItems env st userId of
                    Inl err \<Rightarrow> (st, Inl err)
                  | Inr totalItems \<Rightarrow>
                      if totalItems \<ge> MAX_CATEGORIES_PER_USER
                      then (st, Inl (Error (''Maximum '' @ showNat MAX_CATEGORIES_PER_USER @
                                            '' categories allowed'')))
                      else
                        (case categories_create env st userId (fst validatedInput)
                                (case snd validatedInput of
                                   None \<Rightarrow> None
                                 | Some d \<Rightarrow> if d = [] then None else Some d) of
                           Inr (st', data) \<Rightarrow> (st', Inr data)
                         | Inl err \<Rightarrow>
                             (let message = messageOr ''Failed to create category'' err
                              in if includes_str (toLowerCase env message) ''unique''
                                 then (st, Inl (Error ''Category with this name already exists''))
                                 else (st, Inl (Error (''Failed to create category: '' @
                                                       message))))))))"

text \<open>The number of categories of a user.\<close>

definition categoryCount :: "Store \<Rightarrow> string \<Rightarrow> nat" where
  "categoryCount st userId = length (filter (\<lambda>c. cat_user_id c = userId) (categories st))"

section \<open>Extraction stream (ai-processor)\<close>

text \<open>
  The conversions of the language on values of JSON and on \<open>undefined\<close> (\<open>None\<close>).
  \<open>String(v)\<close> and \<open>Number(v)\<close> convert an object to a primitive value first: they call
  its \<open>toString\<close> and \<open>valueOf\<close> when these are callable. A value of JSON is never
  callable, so an object with an own property \<open>toString\<close> hides the inherited method and
  the conversion throws a \<open>TypeError\<close>; an object without it gives \<open>[object Object]\<close>.
  An array is joined with commas, \<open>null\<close> elements giving the empty string, and throws
  when the conversion of an element does.
\<close>

fun truthy :: "json \<Rightarrow> bool" where
  "truthy JNull = False"
| "truthy (JBool b) = b"
| "truthy (JNum x) = (x \<noteq> 0)"
| "truthy (JStr s) = (s \<noteq> [])"
| "truthy (JArr xs) = True"
| "truthy (JObj kvs) = True"

definition cannotConvert :: thrown where
  "cannotConvert = Error ''Cannot convert object to primitive value''"

text \<open>The results of a sequence of evaluations, up to the first one that throws.\<close>

fun collect :: "(thrown + 'a) list \<Rightarrow> thrown + 'a list" where
  "collect [] = Inr []"
| "collect (Inl err # rest) = Inl err"
| "collect (Inr v # rest) = (case collect rest of Inl err \<Rightarrow> Inl err | Inr vs \<Rightarrow> Inr (v # vs))"

fun js_String :: "(real \<Rightarrow> string) \<Rightarrow> json \<Rightarrow> thrown + string" where
  "js_String f JNull = Inr ''null''"
| "js_String f (JBool b) = Inr (if b then ''true'' else ''false'')"
| "js_String f (JNum x) = Inr (f x)"
| "js_String f (JStr s) = Inr s"
| "js_String f (JArr xs) =
     (case collect (map (\<lambda>x. if x = JNull then Inr [] else js_String f x) xs) of
        Inl err \<Rightarrow> Inl err
      | Inr parts \<Rightarrow> Inr (join_with '','' parts))"
| "js_String f (JObj kvs) =
     (if map_of kvs ''toString'' = None then Inr ''[object Object]'' else Inl cannotConvert)"

text \<open>\<open>String(v)\<close>\<close>

definition String_of :: "Env \<Rightarrow> json option \<Rightarrow> thrown + string" where
  "String_of env v =
     (case v of None \<Rightarrow> Inr ''undefined'' | Some x \<Rightarrow> js_String (numToString env) x)"

text \<open>\<open>Number(v)\<close>, \<open>None\<close> for \<open>NaN\<close>\<close>

definition Number_of :: "Env \<Rightarrow> json option \<Rightarrow> thrown + real option" where
  "Number_of env v =
     (case v of
        None \<Rightarrow> Inr None
      | Some JNull \<Rightarrow> Inr (Some 0)
      | Some (JBool b) \<Rightarrow> Inr (Some (if b then 1 else 0))
      | Some (JNum x) \<Rightarrow> Inr (Some x)
      | Some (JStr s) \<Rightarrow> Inr (strToNum env s)
      | Some (JArr xs) \<Rightarrow>
          (case js_String (numToString env) (JArr xs) of
             Inl err \<Rightarrow> Inl err
           | Inr s \<Rightarrow> Inr (strToNum env s))
      | Some (JObj kvs) \<Rightarrow>
          (if map_of kvs ''toString'' = None then Inr None else Inl cannotConvert))"

text \<open>\<open>v || d\<close> for a string \<open>d\<close>\<close>

definition orDefault :: "json option \<Rightarrow> string \<Rightarrow> json option" where
  "orDefault v d =
     (case v of None \<Rightarrow> Some (JStr d) | Some x \<Rightarrow> if truthy x then Some x else Some (JStr d))"

text \<open>\<open>Number(v) || 0\<close>\<close>

definition numberOrZero :: "Env \<Rightarrow> json option \<Rightarrow> thrown + real" where
  "numberOrZero env v =
     (case Number_of env v of
        Inl err \<Rightarrow> Inl err
      | Inr None \<Rightarrow> Inr 0
      | Inr (Some n) \<Rightarrow> Inr n)"

text \<open>
  \<open>data.key\<close>: reading a property of \<open>null\<close> throws a \<open>TypeError\<close>; a value that is
  not an object with the key gives \<open>undefined\<close> (none of the six keys read here is a
  property of a string, a number, a boolean or an array).
\<close>

definition getProp :: "json \<Rightarrow> string \<Rightarrow> thrown + json option" where
  "getProp v k =
     (case v of
        JNull \<Rightarrow> Inl (Error ''Cannot read properties of null'')
      | JObj kvs \<Rightarrow> Inr (map_of kvs k)
      | _ \<Rightarrow> Inr None)"

definition asString :: "json option \<Rightarrow> string option" where
  "asString v = (case v of Some (JStr s) \<Rightarrow> Some s | _ \<Rightarrow> None)"

definition asNumber :: "json option \<Rightarrow> real option" where
  "asNumber v = (case v of Some (JNum x) \<Rightarrow> Some x | _ \<Rightarrow> None)"

text \<open>
  \<open>createAiExpenseSchema(validCategories).safeParse(v)\<close>: \<open>None\<close> when the parse
  fails. The value is an object with strings for the date, the description, the
  merchant, the category and the currency and a number for the amount; the category is
  in the list or is \<open>Other\<close>, and is transformed.
\<close>

definition createAiExpenseSchema :: "string list \<Rightarrow> json \<Rightarrow> AIExpenseInput option" where
  "createAiExpenseSchema validCategories v =
     (case v of
        JObj kvs \<Rightarrow>
          (case asString (map_of kvs ''date'') of None \<Rightarrow> None | Some d \<Rightarrow>
          (case asString (map_of kvs ''description'') of None \<Rightarrow> None | Some de \<Rightarrow>
          (case asString (map_of kvs ''merchant'') of None \<Rightarrow> None | Some m \<Rightarrow>
          (case asString (map_of kvs ''category'') of None \<Rightarrow> None | Some cat \<Rightarrow>
          (case asNumber (map_of kvs ''original_amount'') of None \<Rightarrow> None | Some a \<Rightarrow>
          (case asString (map_of kvs ''original_currency'') of None \<Rightarrow> None | Some cur \<Rightarrow>
             if cat \<in> set validCategories \<or> cat = ''Other''
             then Some \<lparr> date = d, description = de, merchant = m,
                         category = (if cat \<in> set validCategories then cat else ''Other''),
                         original_amount = a, original_currency = cur \<rparr>
             else None))))))
      | _ \<Rightarrow> None)"

text \<open>
  The fields of the coercion that the string schema and the permissive schema share:
  \<open>String(data.key || fallback)\<close>,
  \<open>userCategories.includes(String(data.category)) ? String(data.category) : "Other"\<close>
  and \<open>Number(data.original_amount) || 0\<close>.
\<close>

definition stringField :: "Env \<Rightarrow> json \<Rightarrow> string \<Rightarrow> string \<Rightarrow> thrown + string" where
  "stringField env data key fallback =
     (case getProp data key of
        Inl err \<Rightarrow> Inl err
      | Inr v \<Rightarrow> String_of env (orDefault v fallback))"

definition categoryField :: "Env \<Rightarrow> string list \<Rightarrow> json \<Rightarrow> thrown + string" where
  "categoryField env userCategories data =
     (case getProp data ''category'' of
        Inl err \<Rightarrow> Inl err
      | Inr v \<Rightarrow>
          (case String_of env v of
             Inl err \<Rightarrow> Inl err
           | Inr s \<Rightarrow> Inr (if s \<in> set userCategories then s else ''Other'')))"

definition amountField :: "Env \<Rightarrow> json \<Rightarrow> thrown + real" where
  "amountField env data =
     (case getProp data ''original_amount'' of
        Inl err \<Rightarrow> Inl err
      | Inr v \<Rightarrow> numberOrZero env v)"

text \<open>
  The object literal of the coercion: its fields are evaluated in the order in which they
  are written, and the first one that throws ends the evaluation.
\<close>

definition coerce :: "Env \<Rightarrow> string list \<Rightarrow> json \<Rightarrow> thrown + AIExpenseInput" where
  "coerce env userCategories data =
     (case stringField env data ''date'' [] of Inl err \<Rightarrow> Inl err | Inr d \<Rightarrow>
     (case stringField env data ''description'' [] of Inl err \<Rightarrow> Inl err | Inr de \<Rightarrow>
     (case stringField env data ''merchant'' [] of Inl err \<Rightarrow> Inl err | Inr m \<Rightarrow>
     (case categoryField env userCategories data of Inl err \<Rightarrow> Inl err | Inr cat \<Rightarrow>
     (case amountField env data of Inl err \<Rightarrow> Inl err | Inr a \<Rightarrow>
     (case stringField env data ''original_currency'' ''SGD'' of Inl err \<Rightarrow> Inl err | Inr cur \<Rightarrow>
        Inr \<lparr> date = d, description = de, merchant = m, category = cat,
              original_amount = a, original_currency = cur \<rparr>))))))"

definition invalidJson :: AIExpenseInput where
  "invalidJson =
     \<lparr> date = [], description = ''Invalid JSON'', merchant = [], category = ''Other'',
       original_amount = 0, original_currency = ''SGD'' \<rparr>"

definition unknownDataType :: AIExpenseInput where
  "unknownDataType =
     \<lparr> date = [], description = ''Unknown data type'', merchant = [], category = ''Other'',
       original_amount = 0, original_currency = ''SGD'' \<rparr>"

text \<open>
  The transform of \<open>stringSchema\<close>: the \<open>try\<close> block parses the string, tries the
  original schema and coerces; the \<open>catch\<close> returns the placeholder, whatever was thrown.
\<close>

definition stringSchema :: "Env \<Rightarrow> string list \<Rightarrow> string \<Rightarrow> AIExpenseInput" where
  "stringSchema env userCategories data =
     (case (case JSON_parse env data of
              None \<Rightarrow> Inl (Error ''Unexpected token'')
            | Some parsed \<Rightarrow>
                (case createAiExpenseSchema userCategories parsed of
                   Some result \<Rightarrow> Inr result
                 | None \<Rightarrow> coerce env userCategories parsed)) of
        Inr result \<Rightarrow> result
      | Inl error \<Rightarrow> invalidJson)"

text \<open>
  The transform of \<open>permissiveSchema\<close>; \<open>typeof data === "object" && data !== null\<close>
  holds of objects and arrays. The coercion is not in a \<open>try\<close> block here: what it throws
  leaves the transform.
\<close>

definition permissiveSchema :: "Env \<Rightarrow> string list \<Rightarrow> json \<Rightarrow> thrown + AIExpenseInput" where
  "permissiveSchema env userCategories data =
     (case data of
        JObj kvs \<Rightarrow> coerce env userCategories data
      | JArr xs \<Rightarrow> coerce env userCategories data
      | _ \<Rightarrow> Inr unknownDataType)"

text \<open>
  \<open>z.union([originalSchema, stringSchema, permissiveSchema])\<close> on an element of the
  model's output: the first schema that accepts the element gives the result, and what
  the transform of a schema throws leaves the union.
\<close>

definition createPermissiveExpenseSchema ::
  "Env \<Rightarrow> string list \<Rightarrow> json \<Rightarrow> thrown + AIExpenseInput"
where
  "createPermissiveExpenseSchema env userCategories element =
     (case createAiExpenseSchema userCategories element of
        Some result \<Rightarrow> Inr result
      | None \<Rightarrow>
          (case element of
             JStr data \<Rightarrow> Inr (stringSchema env userCategories data)
           | _ \<Rightarrow> permissiveSchema env userCategories element))"

text \<open>
  \<open>extractExpensesFromPdf\<close>: the elements it yields, in order, and the error that ends
  the stream, if any. It passes the schema to \<open>streamObject\<close> and yields every element of
  the \<open>elementStream\<close> (an element is an object, which is truthy); an error of the stream
  is thrown again.
\<close>

definition extractExpensesFromPdf ::
  "Env \<Rightarrow> string \<Rightarrow> string list \<Rightarrow> AIExpenseInput list \<times> thrown option"
where
  "extractExpensesFromPdf env fileBuffer userCategories =
     elementStream env (createPermissiveExpenseSchema env userCategories) fileBuffer
       userCategories"

section \<open>Ingestion pipeline (expense-processor, expense-transformers, merchant-mappings)\<close>

definition createExpenseHash :: "Env \<Rightarrow> string \<Rightarrow> string \<Rightarrow> real \<Rightarrow> string" where
  "createExpenseHash env d descr amt =
     sha256 env (d @ ''-'' @ descr @ ''-'' @ numToString env amt)"

text \<open>
  \<open>expenseInsertDataSchema.parse\<close>: the statement id, the user id and, when present, the
  category id have at least one character.
\<close>

definition expenseInsertDataSchema_parse :: "ExpenseInsertData \<Rightarrow> thrown + ExpenseInsertData" where
  "expenseInsertDataSchema_parse d =
     (let issues =
        (if statement_id d = [] then [(''statement_id'', tooSmall)] else []) @
        (if user_id d = [] then [(''user_id'', tooSmall)] else []) @
        (if category_id d = Some [] then [(''category_id'', tooSmall)] else [])
      in if issues = [] then Inr d else Inl (ZodError issues))"

definition transformAIInputToInsert ::
  "AIExpenseInput \<Rightarrow> string \<Rightarrow> string \<Rightarrow> real \<Rightarrow> string \<Rightarrow> string \<Rightarrow> thrown + ExpenseInsertData"
where
  "transformAIInputToInsert aiInput statementId userId convertedAmountSgd lineHash categoryId =
     expenseInsertDataSchema_parse
       \<lparr> statement_id = statementId,
         user_id = userId,
         ins_date = date aiInput,
         ins_description = description aiInput,
         ins_merchant = Some (merchant aiInput),
         amount_sgd = convertedAmountSgd,
         ins_original_amount = original_amount aiInput,
         ins_original_currency = original_currency aiInput,
         currency = original_currency aiInput,
         ins_category = category aiInput,
         category_id = Some categoryId,
         line_hash = lineHash \<rparr>"

definition validateExpenseInsert :: "ExpenseInsertData \<Rightarrow> thrown + ExpenseInsertData" where
  "validateExpenseInsert d =
     (case expenseInsertDataSchema_parse d of
        Inr v \<Rightarrow> Inr v
      | Inl (ZodError issues) \<Rightarrow>
          Inl (Error (''Invalid expense insert data: '' @
                      join_with '', '' (map issueText issues)))
      | Inl err \<Rightarrow> Inl err)"

definition getMerchantMapping ::
  "Env \<Rightarrow> Store \<Rightarrow> string \<Rightarrow> string \<Rightarrow> thrown + MerchantMapping option"
where
  "getMerchantMapping env st userId merchantName =
     (let normalized = toUpperCase env merchantName
      in merchant_mappings_first env st userId normalized)"

text \<open>
  \<open>convertExpenseToRecord\<close>. The lookup of the merchant mapping is made when
  \<open>expense.merchant\<close> is truthy, that is, not the empty string.
\<close>

definition convertExpenseToRecord ::
  "Env \<Rightarrow> Store \<Rightarrow> AIExpenseInput \<Rightarrow> string \<Rightarrow> string \<Rightarrow> Store \<times> (thrown + ExpenseInsertData)"
where
  "convertExpenseToRecord env st expense statementId userId =
     (let amountSgd =
            convertToSGD env (original_amount expense) (original_currency expense) (date expense);
          lineHash = createExpenseHash env (date expense) (description expense) amountSgd;
          foreignOrExtracted =
            (if original_currency expense \<noteq> ''SGD'' then ''Travel'' else category expense)
      in case (if merchant expense \<noteq> []
               then getMerchantMapping env st userId (merchant expense)
               else Inr None) of
           Inl err \<Rightarrow> (st, Inl err)
         | Inr merchantMapping \<Rightarrow>
             (let finalCategory =
                    (case merchantMapping of
                       Some m \<Rightarrow> mm_category m
                     | None \<Rightarrow> foreignOrExtracted);
                  expenseWithMapping = expense\<lparr>category := finalCategory\<rparr>
              in case getOrCreateCategoryByName env st finalCategory userId of
                   (st1, Inl err) \<Rightarrow> (st1, Inl err)
                 | (st1, Inr categoryId) \<Rightarrow>
                     (case transformAIInputToInsert expenseWithMapping statementId userId
                             amountSgd lineHash categoryId of
                        Inl err \<Rightarrow> (st1, Inl err)
                      | Inr insertData \<Rightarrow>
                          (st1, Inr (insertData\<lparr>category_id := Some categoryId\<rparr>)))))"

text \<open>
  \<open>insertExpenseRecord\<close>: the validation is before the \<open>try\<close>; both branches of its
  \<open>catch\<close> return \<open>false\<close>.
\<close>

definition insertExpenseRecord ::
  "Env \<Rightarrow> Store \<Rightarrow> ExpenseInsertData \<Rightarrow> Store \<times> (thrown + bool)"
where
  "insertExpenseRecord env st expenseRecord =
     (case validateExpenseInsert expenseRecord of
        Inl err \<Rightarrow> (st, Inl err)
      | Inr validatedRecord \<Rightarrow>
          (case expenses_create env st validatedRecord of
             Inr st' \<Rightarrow> (st', Inr True)
           | Inl error \<Rightarrow>
               (let message = messageOr ''Failed to insert expense'' error
                in if includes_str (toLowerCase env message) ''unique''
                   then (st, Inr False)
                   else (st, Inr False))))"

definition updateStatementStatus ::
  "Env \<Rightarrow> Store \<Rightarrow> string \<Rightarrow> StatementStatus \<Rightarrow> thrown + Store"
where
  "updateStatementStatus env st statementId status =
     statements_updateStatus env st statementId status"

text \<open>
  The \<open>for await\<close> loop of \<open>processPdfExpenses\<close> over the elements the stream yields,
  with the store and \<open>expenseCount\<close> passed along. A thrown value leaves the loop.
\<close>

fun processElements ::
  "Env \<Rightarrow> string \<Rightarrow> string \<Rightarrow> Store \<Rightarrow> nat \<Rightarrow> AIExpenseInput list \<Rightarrow> Store \<times> (thrown + nat)"
where
  "processElements env statementId userId st expenseCount [] = (st, Inr expenseCount)"
| "processElements env statementId userId st expenseCount (expense # rest) =
     (case convertExpenseToRecord env st expense statementId userId of
        (st1, Inl err) \<Rightarrow> (st1, Inl err)
      | (st1, Inr expenseRecord) \<Rightarrow>
          (case insertExpenseRecord env st1 expenseRecord of
             (st2, Inl err) \<Rightarrow> (st2, Inl err)
           | (st2, Inr inserted) \<Rightarrow>
               processElements env statementId userId st2 (Suc expenseCount) rest))"

text \<open>The \<open>try\<close> block of \<open>processPdfExpenses\<close>.\<close>

definition tryProcess ::
  "Env \<Rightarrow> Store \<Rightarrow> string \<Rightarrow> string \<Rightarrow> string \<Rightarrow> Store \<times> (thrown + unit)"
where
  "tryProcess env st fileBuffer statementId userId =
     (case categories_getFullList env st userId of
        Inl err \<Rightarrow> (st, Inl err)
      | Inr userCategories \<Rightarrow>
          (let categoryNames = map cat_name userCategories
           in case extractExpensesFromPdf env fileBuffer categoryNames of
                (elements, failure) \<Rightarrow>
                  (case processElements env statementId userId st 0 elements of
                     (st1, Inl err) \<Rightarrow> (st1, Inl err)
                   | (st1, Inr expenseCount) \<Rightarrow>
                       (case failure of
                          Some err \<Rightarrow> (st1, Inl err)
                        | None \<Rightarrow>
                            if expenseCount = 0
                            then (st1, Inl (Error ''AI failed to extract any transactions.''))
                            else
                              (case updateStatementStatus env st1 statementId Completed of
                                 Inl err \<Rightarrow> (st1, Inl err)
                               | Inr st2 \<Rightarrow> (st2, Inr ()))))))"

text \<open>
  \<open>processPdfExpenses\<close>: the \<open>catch\<close> writes the status \<open>failed\<close> and throws the error
  again.
\<close>

definition processPdfExpenses ::
  "Env \<Rightarrow> Store \<Rightarrow> string \<Rightarrow> string \<Rightarrow> string \<Rightarrow> Store \<times> (thrown + unit)"
where
  "processPdfExpenses env st fileBuffer statementId userId =
     (case tryProcess env st fileBuffer statementId userId of
        (st1, Inr finished) \<Rightarrow> (st1, Inr finished)
      | (st1, Inl error) \<Rightarrow>
          (case updateStatementStatus env st1 statementId Failed of
             Inl err \<Rightarrow> (st1, Inl err)
           | Inr st2 \<Rightarrow> (st2, Inl error)))"

section \<open>Vocabulary of the statements about the pipeline\<close>

text \<open>
  The constraints of the \<open>merchant_mappings\<close> collection: \<open>merchant_name\<close> is a
  required (non-empty) field, and \<open>(user_id, merchant_name)\<close> has a unique index.
\<close>

definition mappingsWellFormed :: "MerchantMapping list \<Rightarrow> bool" where
  "mappingsWellFormed ms =
     (list_all (\<lambda>m. merchant_name m \<noteq> []) ms \<and>
      distinct (map (\<lambda>m. (mm_user_id m, merchant_name m)) ms))"

definition isCreateExpense :: "request \<Rightarrow> bool" where
  "isCreateExpense req = (case req of CreateExpense r \<Rightarrow> True | _ \<Rightarrow> False)"

text \<open>
  Two environments that differ at most in the faults of the requests that create an
  expense, and two stores that differ at most in their expenses.
\<close>

definition sameOutsideInsertion :: "Env \<Rightarrow> Env \<Rightarrow> bool" where
  "sameOutsideInsertion env env' =
     (env' = env\<lparr>fault := fault env'\<rparr> \<and>
      (\<forall>req. \<not> isCreateExpense req \<longrightarrow> fault env' req = fault env req))"

definition sameOutsideExpenses :: "Store \<Rightarrow> Store \<Rightarrow> bool" where
  "sameOutsideExpenses st st' = (st' = st\<lparr>expenses := expenses st'\<rparr>)"

text \<open>
  The values of JSON that \<open>String\<close> and \<open>Number\<close> convert without a throw: every value
  but an object with an own property \<open>toString\<close> and an array with such an element.
\<close>

fun plainValue :: "json \<Rightarrow> bool" where
  "plainValue (JArr xs) = list_all plainValue xs"
| "plainValue (JObj kvs) = (map_of kvs ''toString'' = None)"
| "plainValue v = True"

text \<open>
  The six properties that the coercion reads, and the properties of an object whose value
  the coercion cannot convert.
\<close>

definition coercedKeys :: "string list" where
  "coercedKeys =
     [''date'', ''description'', ''merchant'', ''category'', ''original_amount'',
      ''original_currency'']"

definition raisingField :: "(string \<times> json) list \<Rightarrow> string \<Rightarrow> bool" where
  "raisingField kvs k = (case map_of kvs k of None \<Rightarrow> False | Some v \<Rightarrow> \<not> plainValue v)"

text \<open>
  The backend accepts the write of a status of a statement: the statement exists, and the
  request is not one that the backend fails.
\<close>

definition acceptsStatus :: "Env \<Rightarrow> Store \<Rightarrow> string \<Rightarrow> StatementStatus \<Rightarrow> bool" where
  "acceptsStatus env st statementId status =
     (statusOf st statementId \<noteq> None \<and> fault env (UpdateStatement statementId status) = None)"

text \<open>The error of a write of a status that the backend does not accept.\<close>

definition refusal :: "Env \<Rightarrow> string \<Rightarrow> StatementStatus \<Rightarrow> thrown" where
  "refusal env statementId status =
     Error (case fault env (UpdateStatement statementId status) of
              Some m \<Rightarrow> m
            | None \<Rightarrow> notFoundMessage env)"

section \<open>Environments and stores of the concrete evaluations\<close>

text \<open>
  A runtime for the examples. In their strings \<open>CHR 0xE9\<close> stands for the letter e with
  an acute accent and \<open>CHR 0xC9\<close> for its capital; no other character outside ASCII
  occurs in them, and none of them has white space at an end.
\<close>

definition exampleLower :: "string \<Rightarrow> string" where
  "exampleLower s = map (\<lambda>c. if c = CHR 0xC9 then CHR 0xE9 else lower_char c) s"

definition exampleUpper :: "string \<Rightarrow> string" where
  "exampleUpper s = map (\<lambda>c. if c = CHR 0xE9 then CHR 0xC9 else upper_char c) s"

definition exampleRuntime :: Runtime where
  "exampleRuntime =
     \<lparr> lowerCaseOutsideAscii = exampleLower,
       upperCaseOutsideAscii = exampleUpper,
       trimOutsideAscii = trimSpaces,
       numToString = numToString2,
       strToNum = (\<lambda>s. None),
       JSON_parse = (\<lambda>s. if s = ''null'' then Some JNull else None) \<rparr>"

text \<open>
  A stream for the examples: each item of the model's output is validated with the schema,
  and the stream delivers the values of the items that precede the first one whose
  validation fails.
\<close>

fun deliverValid :: "(json \<Rightarrow> thrown + AIExpenseInput) \<Rightarrow> json list \<Rightarrow> AIExpenseInput list" where
  "deliverValid schema [] = []"
| "deliverValid schema (item # items) =
     (case schema item of
        Inl err \<Rightarrow> []
      | Inr element \<Rightarrow> element # deliverValid schema items)"

text \<open>
  A backend with no fault of its own, a model that produces no item, the identity
  conversion of amounts, the identity in place of the digest, and ids numbered by the rows
  of the store.
\<close>

definition exampleEnv :: Env where
  "exampleEnv =
     \<lparr> lowerCaseOutsideAscii = exampleLower,
       upperCaseOutsideAscii = exampleUpper,
       trimOutsideAscii = trimSpaces,
       numToString = numToString2,
       strToNum = (\<lambda>s. None),
       JSON_parse = (\<lambda>s. if s = ''null'' then Some JNull else None),
       fault = (\<lambda>req. None),
       uniqueMessage = ''Failed to create record.'',
       requiredMessage = ''Failed to create record.'',
       notFoundMessage = ''The requested resource was not found.'',
       newId = (\<lambda>rows. ''c'' @ showNat (length rows)),
       convertToSGD = (\<lambda>a c d. a),
       sha256 = (\<lambda>s. s),
       elementStream = (\<lambda>schema fileBuffer userCategories. ([], None)) \<rparr>"

definition emptyStore :: Store where
  "emptyStore = \<lparr> expenses = [], categories = [], merchant_mappings = [], statements = [] \<rparr>"

text \<open>A store in which the user \<open>u1\<close> has twenty categories.\<close>

definition fullStore :: Store where
  "fullStore =
     emptyStore\<lparr>categories :=
       map (\<lambda>n. \<lparr> cat_id = ''c'' @ showNat n, cat_user_id = ''u1'',
                   cat_name = ''Category '' @ showNat n, cat_description = None,
                   is_default = False \<rparr>) [0..<20]\<rparr>"

text \<open>
  A statement \<open>s1\<close> of the user \<open>u1\<close> in processing, whose document yields one
  candidate: a coffee at Starbucks.
\<close>

definition coffeeElement :: json where
  "coffeeElement =
     JObj [(''date'', JStr ''2024-01-01''), (''description'', JStr ''Coffee''),
           (''merchant'', JStr ''Starbucks''), (''category'', JStr ''Dining''),
           (''original_amount'', JNum 5), (''original_currency'', JStr ''SGD'')]"

definition coffeeExpense :: AIExpenseInput where
  "coffeeExpense =
     \<lparr> date = ''2024-01-01'', description = ''Coffee'', merchant = ''Starbucks'',
       category = ''Dining'', original_amount = 5, original_currency = ''SGD'' \<rparr>"

definition coffeeRecord :: ExpenseInsertData where
  "coffeeRecord =
     \<lparr> statement_id = ''s1'', user_id = ''u1'', ins_date = ''2024-01-01'',
       ins_description = ''Coffee'', ins_merchant = Some ''Starbucks'', amount_sgd = 5,
       ins_original_amount = 5, ins_original_currency = ''SGD'', currency = ''SGD'',
       ins_category = ''Dining'', category_id = Some ''c0'',
       line_hash = ''2024-01-01-Coffee-5'' \<rparr>"

definition dining :: CategoryRow where
  "dining =
     \<lparr> cat_id = ''c0'', cat_user_id = ''u1'', cat_name = ''Dining'', cat_description = None,
       is_default = True \<rparr>"

definition uploadStore :: Store where
  "uploadStore =
     \<lparr> expenses = [], categories = [dining], merchant_mappings = [],
       statements = [(''s1'', Processing)] \<rparr>"

text \<open>The same, after the same line was recorded from an earlier statement \<open>s0\<close>.\<close>

definition reuploadStore :: Store where
  "reuploadStore = uploadStore\<lparr>expenses := [coffeeRecord\<lparr>statement_id := ''s0''\<rparr>]\<rparr>"

text \<open>The same, with a mapping of the merchant to the category \<open>Dining\<close>.\<close>

definition mappedStore :: Store where
  "mappedStore =
     uploadStore\<lparr>merchant_mappings :=
       [\<lparr> mm_id = ''m0'', mm_user_id = ''u1'', merchant_name = ''STARBUCKS'',
          mm_category = ''Dining'' \<rparr>]\<rparr>"

definition coffeeEnv :: Env where
  "coffeeEnv =
     exampleEnv\<lparr>elementStream :=
       (\<lambda>schema fileBuffer userCategories. (deliverValid schema [coffeeElement], None))\<rparr>"

text \<open>The same environment, with a backend that fails every creation of an expense.\<close>

definition insertsFailEnv :: Env where
  "insertsFailEnv =
     coffeeEnv\<lparr>fault :=
       (\<lambda>req. case req of CreateExpense r \<Rightarrow> Some ''connection refused'' | _ \<Rightarrow> None)\<rparr>"

text \<open>The same environment, with a backend that fails every lookup of a merchant mapping.\<close>

definition lookupsFailEnv :: Env where
  "lookupsFailEnv =
     coffeeEnv\<lparr>fault :=
       (\<lambda>req. case req of FirstMerchantMapping u n \<Rightarrow> Some ''connection refused'' | _ \<Rightarrow> None)\<rparr>"

text \<open>A stream that ends with an error before it delivers an element.\<close>

definition streamFailsEnv :: Env where
  "streamFailsEnv =
     exampleEnv\<lparr>elementStream :=
       (\<lambda>schema fileBuffer userCategories. ([], Some (Error ''model overloaded'')))\<rparr>"

text \<open>A backend that refuses every write of the status of a statement.\<close>

definition statusWritesFailEnv :: Env where
  "statusWritesFailEnv =
     exampleEnv\<lparr>fault :=
       (\<lambda>req. case req of UpdateStatement s v \<Rightarrow> Some ''service unavailable'' | _ \<Rightarrow> None)\<rparr>"

text \<open>
  An item of the model's output whose date is an object with a property \<open>toString\<close>:
  \<^verbatim>\<open>{"date": {"toString": 1}}\<close>.
\<close>

definition toStringItem :: json where
  "toStringItem = JObj [(''date'', JObj [(''toString'', JNum 1)])]"

text \<open>
  The names \<open>Caf\<close>+e-acute, \<open>caf\<close>+e-acute and \<open>CAF\<close>+E-acute, a candidate in euros
  of the first merchant, and a store with a mapping of the merchant to \<open>Dining\<close>.
\<close>

definition cafe :: string where
  "cafe = ''Caf'' @ [CHR 0xE9]"

definition cafeLower :: string where
  "cafeLower = ''caf'' @ [CHR 0xE9]"

definition cafeUpper :: string where
  "cafeUpper = ''CAF'' @ [CHR 0xC9]"

definition cafeExpense :: AIExpenseInput where
  "cafeExpense =
     \<lparr> date = ''2024-01-01'', description = ''Coffee'', merchant = cafe,
       category = ''Other'', original_amount = 5, original_currency = ''EUR'' \<rparr>"

definition cafeStore :: Store where
  "cafeStore =
     uploadStore\<lparr>merchant_mappings :=
       [\<lparr> mm_id = ''m0'', mm_user_id = ''u1'', merchant_name = cafeUpper,
          mm_category = ''Dining'' \<rparr>]\<rparr>"

section \<open>Theorems\<close>

subsection \<open>Duplicate flags of the display list\<close>

lemma toLowerCase_example: "trim js (toLowerCase js '' STARBUCKS '') = ''starbucks''"
  by (simp add: toLowerCase_def trim_def isAscii_def lower_char_def trimSpaces_def is_space_def)

lemma numToString2_examples:
  "numToString2 5 = ''5''" "numToString2 5.01 = ''5.01''" "numToString2 (-5.5) = ''-5.5''"
  "numToString2 120 = ''120''"
  by (simp_all add: numToString2_def)

lemma asDisplayExpense_withDuplicate [simp]: "asDisplayExpense (withDuplicate e d) = e"
  by (simp add: asDisplayExpense_def withDuplicate_def DisplayExpense.truncate_def
      DisplayExpense.extend_def DisplayExpenseWithDuplicate.fields_def)

lemma isDuplicate_withDuplicate [simp]: "isDuplicate (withDuplicate e d) = d"
  by (simp add: withDuplicate_def DisplayExpense.extend_def
      DisplayExpenseWithDuplicate.fields_def)

lemma map_asDisplayExpense_recalculateFrom [simp]:
  "map asDisplayExpense (recalculateFrom f seen es) = es"
  by (induction es arbitrary: seen) simp_all

lemma length_recalculateFrom [simp]: "length (recalculateFrom f seen es) = length es"
  by (induction es arbitrary: seen) simp_all

text \<open>
  What the code computes: a row is flagged exactly when the key string of an earlier row
  of the list equals its own key string.
\<close>

lemma isDuplicate_recalculateFrom:
  "i < length es \<Longrightarrow>
   isDuplicate (recalculateFrom f seen es ! i) =
     (combination f (es ! i) \<in> seen \<union> combination f ` set (take i es))"
proof (induction es arbitrary: seen i)
  case Nil
  then show ?case by simp
next
  case (Cons e es)
  show ?case
  proof (cases i)
    case 0
    then show ?thesis by simp
  next
    case (Suc j)
    with Cons.prems have "j < length es" by simp
    from Cons.IH [OF this, of "insert (combination f e) seen"] Suc
    show ?thesis by simp
  qed
qed

lemma isDuplicate_recalculateDuplicates:
  "i < length es \<Longrightarrow>
   isDuplicate (recalculateDuplicates f es ! i) =
     (\<exists>j < i. combination f (es ! j) = combination f (es ! i))"
proof -
  assume i: "i < length es"
  have "combination f ` set (take i es) = {combination f (es ! j) | j. j < i}"
    using i by (auto simp add: set_conv_nth image_def)
  with isDuplicate_recalculateFrom [OF i, of f "{}"] show ?thesis
    by (auto simp add: recalculateDuplicates_def)
qed

text \<open>
  Equal triples give equal keys, so a later row with the triple of an earlier row is
  always flagged.
\<close>

lemma same_triple_is_flagged:
  assumes "i < length es" and "j < i" and "triple f (es ! j) = triple f (es ! i)"
  shows "isDuplicate (recalculateDuplicates f es ! i)"
proof -
  from assms(3) have "combination f (es ! j) = combination f (es ! i)"
    by (simp add: triple_def combination_def)
  with assms(1,2) show ?thesis
    by (auto simp add: isDuplicate_recalculateDuplicates)
qed

text \<open>
  The rows of the specification's example: the second row (same date and amount, the
  merchant in another case, another description) is flagged, the third (amount 5.01)
  is not.
\<close>

lemma starbucks_example:
  "map isDuplicate
     (recalculateDuplicates exampleRuntime
        [coffee,
         coffee\<lparr>de_id := ''b'', de_merchant := ''STARBUCKS'', de_description := ''Latte''\<rparr>,
         coffee\<lparr>de_id := ''c'', amount := 5.01\<rparr>])
   = [False, True, False]"
  by (simp add: recalculateDuplicates_def combination_def coffee_def toLowerCase_def
      trim_def isAscii_def lower_char_def trimSpaces_def is_space_def exampleRuntime_def
      numToString2_def)

text \<open>
  Claim C5. The flags are described by a set of seen (date, lowercased and trimmed
  merchant, amount) triples: the first occurrence of a triple is not flagged. The code
  keeps the set of the strings \<open>date-merchant-amount\<close>, and two different triples can
  give the same string. For every runtime (every number formatting and every Unicode
  table), the second of the two rows below is flagged although its triple occurs for the
  first time.
\<close>

theorem recalculateDuplicates_key_collision:
  "map isDuplicate (recalculateDuplicates js [sevenEleven, elevenOddDate])
     = [False, True]
   \<and> triple js elevenOddDate \<noteq> triple js sevenEleven"
  by (simp add: recalculateDuplicates_def combination_def sevenEleven_def elevenOddDate_def
      triple_def toLowerCase_def trim_def isAscii_def lower_char_def trimSpaces_def
      is_space_def)

subsection \<open>Replay of expense events\<close>

lemma asDisplayExpense_eq_iff:
  "asDisplayExpense x = asDisplayExpense y \<longleftrightarrow>
     de_id x = de_id y \<and> de_date x = de_date y \<and> de_description x = de_description y \<and>
     de_merchant x = de_merchant y \<and> de_category x = de_category y \<and> amount x = amount y \<and>
     originalAmount x = originalAmount y \<and> originalCurrency x = originalCurrency y \<and>
     de_currency x = de_currency y \<and> createdAt x = createdAt y"
  by (auto simp add: asDisplayExpense_def DisplayExpense.truncate_def)

lemma mergeUpdate_cong:
  "asDisplayExpense x = asDisplayExpense y \<Longrightarrow>
   asDisplayExpense (if de_id x = upd_id u then mergeUpdate x u else x) =
   asDisplayExpense (if de_id y = upd_id u then mergeUpdate y u else y)"
  by (simp add: asDisplayExpense_eq_iff mergeUpdate_def split: option.split)

lemma mergeUpdate_twice:
  "asDisplayExpense
     (let y = (if de_id x = upd_id u then mergeUpdate x u else x)
      in if de_id y = upd_id u then mergeUpdate y u else y) =
   asDisplayExpense (if de_id x = upd_id u then mergeUpdate x u else x)"
  by (simp add: asDisplayExpense_eq_iff mergeUpdate_def Let_def split: option.split)

lemma map_mergeUpdate_cong:
  "map asDisplayExpense ys = map asDisplayExpense zs \<Longrightarrow>
   map (\<lambda>x. asDisplayExpense (if de_id x = upd_id u then mergeUpdate x u else x)) ys =
   map (\<lambda>x. asDisplayExpense (if de_id x = upd_id u then mergeUpdate x u else x)) zs"
proof (induction ys arbitrary: zs)
  case Nil
  then show ?case by simp
next
  case (Cons y ys)
  then obtain z zs' where zs: "zs = z # zs'" by (cases zs) auto
  with Cons.prems have hd: "asDisplayExpense y = asDisplayExpense z"
    and tl: "map asDisplayExpense ys = map asDisplayExpense zs'" by simp_all
  from mergeUpdate_cong [OF hd] Cons.IH [OF tl] zs show ?case by simp
qed

lemma updateExpenseInArray_replay:
  "updateExpenseInArray f (updateExpenseInArray f xs u) u = updateExpenseInArray f xs u"
proof -
  let ?g = "\<lambda>x. if de_id x = upd_id u then mergeUpdate x u else x"
  let ?h = "\<lambda>x. asDisplayExpense (?g x)"
  let ?ys = "updateExpenseInArray f xs u"
  have upd: "updateExpenseInArray f zs u = recalculateDuplicates f (map ?h zs)" for zs
    by (simp add: updateExpenseInArray_def o_def)
  have ys: "map asDisplayExpense ?ys = map asDisplayExpense (map ?g xs)"
    by (simp add: upd recalculateDuplicates_def o_def)
  have "map ?h ?ys = map ?h (map ?g xs)"
    by (rule map_mergeUpdate_cong [OF ys])
  also have "\<dots> = map ?h xs"
    using mergeUpdate_twice [of _ u] by (simp add: Let_def o_def)
  finally have key: "map ?h ?ys = map ?h xs" .
  have "updateExpenseInArray f ?ys u = recalculateDuplicates f (map ?h ?ys)"
    by (rule upd)
  also have "\<dots> = recalculateDuplicates f (map ?h xs)"
    by (simp only: key)
  also have "\<dots> = ?ys"
    by (rule upd [symmetric])
  finally show ?thesis .
qed

lemma addExpenseToArray_rows:
  "map asDisplayExpense (addExpenseToArray f xs e) = e # map asDisplayExpense xs"
  by (simp add: addExpenseToArray_def recalculateDuplicates_def)

text \<open>
  Claim C6, as amended. Applying the same update event twice yields the same list as
  applying it once. An insert event is not merged by id: it always puts the new record
  in front of every record of the list (and recomputes the flags), so that applying the
  same insert twice yields a list with two entries for the record.
\<close>

theorem expense_event_replay:
  "updateExpenseInArray f (updateExpenseInArray f xs u) u = updateExpenseInArray f xs u
   \<and> map asDisplayExpense (addExpenseToArray f xs e) = e # map asDisplayExpense xs
   \<and> map asDisplayExpense (addExpenseToArray f (addExpenseToArray f xs e) e)
       = e # e # map asDisplayExpense xs"
  by (simp add: updateExpenseInArray_replay addExpenseToArray_rows)

text \<open>
  Claim C6 as stated fails for insert events: applying the insert of \<open>coffee\<close> twice to
  the empty list does not give the list of applying it once.
\<close>

theorem insert_replay_counterexample:
  "addExpenseToArray exampleRuntime (addExpenseToArray exampleRuntime [] coffee) coffee
     \<noteq> addExpenseToArray exampleRuntime [] coffee"
proof
  assume "addExpenseToArray exampleRuntime (addExpenseToArray exampleRuntime [] coffee) coffee
     = addExpenseToArray exampleRuntime [] coffee"
  then have "map asDisplayExpense
       (addExpenseToArray exampleRuntime (addExpenseToArray exampleRuntime [] coffee) coffee)
     = map asDisplayExpense (addExpenseToArray exampleRuntime [] coffee)"
    by simp
  then show False by (simp add: addExpenseToArray_rows)
qed

subsection \<open>Statement status events\<close>

lemma find_eq_filter: "find P xs = (case filter P xs of [] \<Rightarrow> None | x # _ \<Rightarrow> Some x)"
  by (induction xs) auto

lemma filter_id_absent:
  "sid \<notin> ssd_id ` set xs \<Longrightarrow> filter (\<lambda>item. ssd_id item = sid) xs = []"
  by (induction xs) auto

lemma filter_id_distinct:
  "distinct (map ssd_id xs) \<Longrightarrow> length (filter (\<lambda>item. ssd_id item = sid) xs) \<le> 1"
  by (induction xs) (auto simp add: filter_id_absent)

lemma sort_key_short: "length xs \<le> 1 \<Longrightarrow> sort_key f xs = xs"
  by (cases xs) auto

lemma retained_sort_key:
  assumes "distinct (map ssd_id xs)"
  shows "retained (sort_key f xs) sid = retained xs sid"
proof -
  let ?P = "\<lambda>item. ssd_id item = sid"
  have "filter ?P (sort_key f xs) = sort_key f (filter ?P xs)"
    by (simp add: filter_sort)
  also have "\<dots> = filter ?P xs"
    by (rule sort_key_short) (rule filter_id_distinct [OF assms])
  finally show ?thesis by (simp add: retained_def find_eq_filter)
qed

lemma distinct_merged:
  assumes "distinct (map ssd_id prev)"
  shows "distinct (map ssd_id (n # filter (\<lambda>item. ssd_id item \<noteq> ssd_id n) prev))"
  using assms by (auto simp add: distinct_map_filter)

lemma retained_filter_neq:
  "retained (filter (\<lambda>item. ssd_id item \<noteq> k) xs) sid =
     (if sid = k then None else retained xs sid)"
  by (induction xs) (auto simp add: retained_def)

lemma onStatementEvent_distinct:
  assumes "distinct (map ssd_id prev)"
  shows "distinct (map ssd_id (onStatementEvent getTime now statementIds prev event))"
proof -
  let ?n = "toStatusDisplay now (ev_record event)"
  let ?m = "?n # filter (\<lambda>item. ssd_id item \<noteq> ssd_id ?n) prev"
  have "distinct (map ssd_id (sort_key (\<lambda>item. - getTime (updatedAt item)) ?m))"
    using distinct_merged [OF assms, of ?n]
    by (simp only: distinct_map distinct_sort set_sort inj_on_def) blast
  then show ?thesis
    using assms by (simp add: onStatementEvent_def Let_def distinct_map_filter)
qed

lemma onStatementEvent_retained:
  assumes "distinct (map ssd_id prev)"
  shows "retained (onStatementEvent getTime now statementIds prev event) sid =
     (if ignored statementIds event \<or> rec_id (ev_record event) \<noteq> sid then retained prev sid
      else if ev_action event = ''delete'' then None
      else Some (toStatusDisplay now (ev_record event)))"
proof -
  let ?n = "toStatusDisplay now (ev_record event)"
  let ?m = "?n # filter (\<lambda>item. ssd_id item \<noteq> ssd_id ?n) prev"
  have id: "ssd_id ?n = rec_id (ev_record event)" by (simp add: toStatusDisplay_def)
  have "retained (sort_key (\<lambda>item. - getTime (updatedAt item)) ?m) sid = retained ?m sid"
    by (rule retained_sort_key) (rule distinct_merged [OF assms])
  also have "\<dots> = (if rec_id (ev_record event) = sid then Some ?n else retained prev sid)"
    using retained_filter_neq [of "ssd_id ?n" prev sid] by (auto simp add: retained_def id)
  finally show ?thesis
    by (auto simp add: onStatementEvent_def Let_def retained_filter_neq)
qed

lemma lastArrived_snoc:
  "lastArrived ids sid (evs @ [ev]) =
     (if \<not> ignored ids ev \<and> rec_id (ev_record ev) = sid then Some ev
      else lastArrived ids sid evs)"
  by (simp add: lastArrived_def)

lemma onStatementEvents_snoc:
  "onStatementEvents g now ids prev (evs @ [ev]) =
     onStatementEvent g now ids (onStatementEvents g now ids prev evs) ev"
  by (simp add: onStatementEvents_def)

lemma onStatementEvents_distinct:
  "distinct (map ssd_id prev) \<Longrightarrow>
   distinct (map ssd_id (onStatementEvents g now ids prev evs))"
proof (induction evs rule: rev_induct)
  case Nil
  then show ?case by (simp add: onStatementEvents_def)
next
  case (snoc ev evs)
  then show ?case by (simp add: onStatementEvents_snoc onStatementEvent_distinct)
qed

text \<open>The list is in descending order of the timestamps after an event is merged.\<close>

lemma onStatementEvent_sorted:
  assumes "\<not> ignored statementIds event" and "ev_action event \<noteq> ''delete''"
  shows "sorted (map (\<lambda>item. - getTime (updatedAt item))
                  (onStatementEvent getTime now statementIds prev event))"
proof -
  let ?n = "toStatusDisplay now (ev_record event)"
  let ?m = "?n # filter (\<lambda>item. ssd_id item \<noteq> ssd_id ?n) prev"
  from assms have "onStatementEvent getTime now statementIds prev event =
      sort_key (\<lambda>item. - getTime (updatedAt item)) ?m"
    by (simp add: onStatementEvent_def Let_def)
  then show ?thesis by (simp only: sorted_sort_key)
qed

text \<open>
  Claim C9, as amended. The record retained for a statement id is the one of the event
  that arrived last for this id (among the events the callback does not ignore), whatever
  the timestamps of the events are: a delete event removes the record, any other event
  replaces it. With no such event the record is the one held before. The timestamps
  decide the order of the list only (\<open>onStatementEvent_sorted\<close>).
\<close>

theorem statement_status_arrival_order:
  assumes "distinct (map ssd_id prev)"
  shows "retained (onStatementEvents getTime now statementIds prev events) sid =
     (case lastArrived statementIds sid events of
        None \<Rightarrow> retained prev sid
      | Some event \<Rightarrow>
          if ev_action event = ''delete'' then None
          else Some (toStatusDisplay now (ev_record event)))"
proof (induction events rule: rev_induct)
  case Nil
  show ?case by (simp add: onStatementEvents_def lastArrived_def)
next
  case (snoc ev evs)
  have d: "distinct (map ssd_id (onStatementEvents getTime now statementIds prev evs))"
    by (rule onStatementEvents_distinct [OF assms])
  show ?case
    using snoc.IH
    by (simp add: onStatementEvents_snoc lastArrived_snoc onStatementEvent_retained [OF d])
qed

theorem statement_status_arrival_order_witness:
  "distinct (map ssd_id [heldCompleted])
   \<and> retained
       (onStatementEvents exampleGetTime ''2024-01-01 10:00:05.000Z'' None [heldCompleted]
          [staleProcessing]) ''s1''
     = Some (toStatusDisplay ''2024-01-01 10:00:05.000Z'' (ev_record staleProcessing))"
  using statement_status_arrival_order
    [of "[heldCompleted]" exampleGetTime "''2024-01-01 10:00:05.000Z''" None
        "[staleProcessing]" "''s1''"]
  by (simp add: lastArrived_def ignored_def staleProcessing_def)

text \<open>
  Claim C9 as stated fails: the view holds the record of statement \<open>s1\<close> with status
  completed and the timestamp 10:00; an event for \<open>s1\<close> with status processing and the
  older timestamp 09:00 arrives and replaces it.
\<close>

theorem older_event_replaces_counterexample:
  "retained
     (onStatementEvent exampleGetTime ''2024-01-01 10:00:05.000Z'' None [heldCompleted]
        staleProcessing) ''s1''
     = Some \<lparr> ssd_id = ''s1'', fileName = ''jan.pdf'', ssd_status = Processing,
              updatedAt = ''2024-01-01 09:00:00.000Z'' \<rparr>
   \<and> retained [heldCompleted] ''s1'' = Some heldCompleted
   \<and> exampleGetTime ''2024-01-01 09:00:00.000Z'' < exampleGetTime (updatedAt heldCompleted)"
  by (simp add: onStatementEvent_def retained_def heldCompleted_def staleProcessing_def
      toStatusDisplay_def exampleGetTime_def ignored_def)

subsection \<open>Category resolution\<close>

lemma find_append:
  "find P (xs @ ys) = (case find P xs of Some x \<Rightarrow> Some x | None \<Rightarrow> find P ys)"
  by (induction xs) auto

lemma categories_create_effect:
  "categories_create env st userId name descr = Inr (st', row) \<Longrightarrow>
   categoryCount st' u = categoryCount st u + (if u = userId then 1 else 0)
   \<and> expenses st' = expenses st \<and> merchant_mappings st' = merchant_mappings st
   \<and> statements st' = statements st"
  by (auto simp add: categories_create_def categoryCount_def Let_def
      split: option.splits if_splits)

text \<open>
  Claim C7. Once a name is resolved for a user, resolving any name that differs from it
  in case only (\<open>toLowerCase\<close> gives the same string for the two names, which is the
  comparison of the code) returns the same category id and leaves the store as it is: no
  category is created. This holds for \<open>getOrCreateCategoryByName\<close> and for
  \<open>resolveCategoryNameToId\<close>, for every runtime, that is, also for names with letters
  outside ASCII.
\<close>

theorem category_resolution_case_insensitive:
  assumes "toLowerCase env name2 = toLowerCase env name1"
  shows "(getOrCreateCategoryByName env st name1 userId = (st1, Inr id1) \<longrightarrow>
            getOrCreateCategoryByName env st1 name2 userId = (st1, Inr id1))
       \<and> (resolveCategoryNameToId env st userId name1 = (st2, Inr id2) \<longrightarrow>
            resolveCategoryNameToId env st2 userId name2 = (st2, Inr id2))"
proof (intro conjI impI)
  assume "getOrCreateCategoryByName env st name1 userId = (st1, Inr id1)"
  with assms show "getOrCreateCategoryByName env st1 name2 userId = (st1, Inr id1)"
    by (auto simp add: getOrCreateCategoryByName_def categories_getFullList_def
          categories_create_def Let_def find_append
        split: option.splits sum.splits if_splits prod.splits)
next
  assume "resolveCategoryNameToId env st userId name1 = (st2, Inr id2)"
  with assms show "resolveCategoryNameToId env st2 userId name2 = (st2, Inr id2)"
    by (auto simp add: resolveCategoryNameToId_def categories_getFullList_def
          categories_create_def Let_def find_append
        split: option.splits sum.splits if_splits prod.splits)
qed

text \<open>
  The names of the specification, \<open>dining\<close> then \<open>Dining\<close>, and two names with a letter
  outside ASCII, \<open>caf\<close>+e-acute then \<open>CAF\<close>+E-acute, in a store without categories: the
  first resolution creates the category \<open>c0\<close>, the second returns \<open>c0\<close> and creates
  nothing.
\<close>

lemma toLowerCase_examples:
  "toLowerCase js ''Dining'' = ''dining''"
  "toLowerCase js ''dining'' = ''dining''"
  "toLowerCase exampleEnv cafeUpper = cafeLower"
  "toLowerCase exampleEnv cafeLower = cafeLower"
  by (simp_all add: toLowerCase_def isAscii_def lower_char_def cafeUpper_def cafeLower_def
      exampleEnv_def exampleLower_def)

lemma resolve_dining:
  "getOrCreateCategoryByName exampleEnv emptyStore ''dining'' ''u1'' =
     (emptyStore\<lparr>categories :=
        [\<lparr> cat_id = ''c0'', cat_user_id = ''u1'', cat_name = ''dining'',
           cat_description = None, is_default = False \<rparr>]\<rparr>, Inr ''c0'')"
  "resolveCategoryNameToId exampleEnv emptyStore ''u1'' ''dining'' =
     (emptyStore\<lparr>categories :=
        [\<lparr> cat_id = ''c0'', cat_user_id = ''u1'', cat_name = ''dining'',
           cat_description = None, is_default = False \<rparr>]\<rparr>, Inr ''c0'')"
  by (simp_all add: getOrCreateCategoryByName_def resolveCategoryNameToId_def
      categories_getFullList_def categories_create_def exampleEnv_def emptyStore_def Let_def)

lemma resolve_cafe:
  "getOrCreateCategoryByName exampleEnv emptyStore cafeLower ''u1'' =
     (emptyStore\<lparr>categories :=
        [\<lparr> cat_id = ''c0'', cat_user_id = ''u1'', cat_name = cafeLower,
           cat_description = None, is_default = False \<rparr>]\<rparr>, Inr ''c0'')"
  by (simp add: getOrCreateCategoryByName_def categories_getFullList_def
      categories_create_def exampleEnv_def emptyStore_def Let_def cafeLower_def)

theorem category_resolution_case_insensitive_witness:
  "toLowerCase exampleEnv ''Dining'' = toLowerCase exampleEnv ''dining''
   \<and> getOrCreateCategoryByName exampleEnv emptyStore ''dining'' ''u1'' =
       (emptyStore\<lparr>categories :=
          [\<lparr> cat_id = ''c0'', cat_user_id = ''u1'', cat_name = ''dining'',
             cat_description = None, is_default = False \<rparr>]\<rparr>, Inr ''c0'')
   \<and> getOrCreateCategoryByName exampleEnv
        (emptyStore\<lparr>categories :=
          [\<lparr> cat_id = ''c0'', cat_user_id = ''u1'', cat_name = ''dining'',
             cat_description = None, is_default = False \<rparr>]\<rparr>) ''Dining'' ''u1'' =
       (emptyStore\<lparr>categories :=
          [\<lparr> cat_id = ''c0'', cat_user_id = ''u1'', cat_name = ''dining'',
             cat_description = None, is_default = False \<rparr>]\<rparr>, Inr ''c0'')
   \<and> resolveCategoryNameToId exampleEnv
        (emptyStore\<lparr>categories :=
          [\<lparr> cat_id = ''c0'', cat_user_id = ''u1'', cat_name = ''dining'',
             cat_description = None, is_default = False \<rparr>]\<rparr>) ''u1'' ''Dining'' =
       (emptyStore\<lparr>categories :=
          [\<lparr> cat_id = ''c0'', cat_user_id = ''u1'', cat_name = ''dining'',
             cat_description = None, is_default = False \<rparr>]\<rparr>, Inr ''c0'')
   \<and> toLowerCase exampleEnv cafeUpper = toLowerCase exampleEnv cafeLower
   \<and> cafeUpper \<noteq> cafeLower
   \<and> getOrCreateCategoryByName exampleEnv emptyStore cafeLower ''u1'' =
       (emptyStore\<lparr>categories :=
          [\<lparr> cat_id = ''c0'', cat_user_id = ''u1'', cat_name = cafeLower,
             cat_description = None, is_default = False \<rparr>]\<rparr>, Inr ''c0'')
   \<and> getOrCreateCategoryByName exampleEnv
        (emptyStore\<lparr>categories :=
          [\<lparr> cat_id = ''c0'', cat_user_id = ''u1'', cat_name = cafeLower,
             cat_description = None, is_default = False \<rparr>]\<rparr>) cafeUpper ''u1'' =
       (emptyStore\<lparr>categories :=
          [\<lparr> cat_id = ''c0'', cat_user_id = ''u1'', cat_name = cafeLower,
             cat_description = None, is_default = False \<rparr>]\<rparr>, Inr ''c0'')"
proof -
  have eq: "toLowerCase exampleEnv ''Dining'' = toLowerCase exampleEnv ''dining''"
    by (simp add: toLowerCase_examples)
  have eq': "toLowerCase exampleEnv cafeUpper = toLowerCase exampleEnv cafeLower"
    by (simp add: toLowerCase_examples)
  have ne: "cafeUpper \<noteq> cafeLower"
    by (simp add: cafeUpper_def cafeLower_def)
  from category_resolution_case_insensitive [OF eq, of emptyStore "''u1''"]
    category_resolution_case_insensitive [OF eq', of emptyStore "''u1''"]
    resolve_dining resolve_cafe eq eq' ne
  show ?thesis by blast
qed

subsection \<open>The cap on the categories of a user\<close>

text \<open>\<open>createCategory\<close> enforces the cap: it never takes a user above the maximum.\<close>

lemma createCategory_at_cap:
  assumes "categoryCount st userId \<ge> MAX_CATEGORIES_PER_USER"
  shows "\<exists>err. createCategory env (Some userId) st input = (st, Inl err)"
  using assms
  by (simp add: createCategory_def categories_totalItems_def categoryCount_def
      split: sum.split option.split)

lemma createCategory_count:
  "categoryCount (fst (createCategory env auth st input)) u
     \<le> max (categoryCount st u) MAX_CATEGORIES_PER_USER"
proof (cases "createCategory env auth st input")
  case (Pair st' r)
  show ?thesis
  proof (cases "st' = st")
    case True
    with Pair show ?thesis by simp
  next
    case False
    with Pair obtain userId name descr row where
      count: "\<not> MAX_CATEGORIES_PER_USER \<le> categoryCount st userId"
      and create: "categories_create env st userId name descr = Inr (st', row)"
      by (auto simp add: createCategory_def categories_totalItems_def categoryCount_def Let_def
          split: option.splits sum.splits if_splits prod.splits)
    from categories_create_effect [OF create, of u] count Pair show ?thesis
      by (auto simp add: max_def)
  qed
qed

text \<open>
  \<open>getOrCreateCategoryByName\<close> has no such check: a name that matches no category of the
  user is created whatever the number of the user's categories is.
\<close>

lemma getOrCreateCategoryByName_count:
  assumes "fault env (ListCategories userId) = None"
      and "fault env (CreateCategory userId name) = None"
      and "name \<noteq> []"
      and "\<not> list_ex (\<lambda>c. cat_user_id c = userId \<and>
                              toLowerCase env (cat_name c) = toLowerCase env name) (categories st)"
      and "\<not> list_ex (\<lambda>c. cat_user_id c = userId \<and>
                              sqlite_lower (cat_name c) = sqlite_lower name) (categories st)"
  shows "categoryCount (fst (getOrCreateCategoryByName env st name userId)) userId
           = Suc (categoryCount st userId)"
proof -
  from assms(4) have none:
    "find (\<lambda>c. toLowerCase env (cat_name c) = toLowerCase env name)
       (filter (\<lambda>c. cat_user_id c = userId) (categories st)) = None"
    by (auto simp add: find_None_iff list_ex_iff)
  from assms obtain st' row where
    create: "categories_create env st userId name None = Inr (st', row)"
    by (simp add: categories_create_def Let_def)
  with assms(1) none have "fst (getOrCreateCategoryByName env st name userId) = st'"
    by (simp add: getOrCreateCategoryByName_def categories_getFullList_def)
  with categories_create_effect [OF create, of userId] show ?thesis by simp
qed

text \<open>
  Claim C8. The user \<open>u1\<close> has the maximum of twenty categories and none of them is
  named \<open>Pets\<close>. \<open>createCategory\<close> fails for \<open>Pets\<close> and leaves the store as it is,
  as the claim says; \<open>getOrCreateCategoryByName\<close> creates the category, and the user
  has twenty-one.
\<close>

theorem getOrCreateCategoryByName_exceeds_cap:
  "categoryCount fullStore ''u1'' = MAX_CATEGORIES_PER_USER
   \<and> createCategory exampleEnv (Some ''u1'') fullStore (''Pets'', None) =
       (fullStore, Inl (Error ''Maximum 20 categories allowed''))
   \<and> snd (getOrCreateCategoryByName exampleEnv fullStore ''Pets'' ''u1'') = Inr ''c20''
   \<and> categoryCount (fst (getOrCreateCategoryByName exampleEnv fullStore ''Pets'' ''u1'')) ''u1''
       = 21"
  by code_simp

subsection \<open>The coercion of the extraction stream\<close>

lemma asString_Some: "asString v = Some s \<longleftrightarrow> v = Some (JStr s)"
  by (simp add: asString_def split: option.split json.split)

lemma asNumber_Some: "asNumber v = Some x \<longleftrightarrow> v = Some (JNum x)"
  by (simp add: asNumber_def split: option.split json.split)

lemma createAiExpenseSchema_object:
  "createAiExpenseSchema cats v = Some e \<Longrightarrow> \<exists>kvs. v = JObj kvs"
  by (cases v) (simp_all add: createAiExpenseSchema_def)

lemma createAiExpenseSchema_Some:
  assumes "createAiExpenseSchema cats (JObj kvs) = Some e"
  shows "\<exists>d de m c a cur.
     map_of kvs ''date'' = Some (JStr d) \<and> map_of kvs ''description'' = Some (JStr de) \<and>
     map_of kvs ''merchant'' = Some (JStr m) \<and> map_of kvs ''category'' = Some (JStr c) \<and>
     map_of kvs ''original_amount'' = Some (JNum a) \<and>
     map_of kvs ''original_currency'' = Some (JStr cur) \<and>
     e = \<lparr> date = d, description = de, merchant = m,
           category = (if c \<in> set cats then c else ''Other''),
           original_amount = a, original_currency = cur \<rparr>"
  using assms
  by (auto simp add: createAiExpenseSchema_def asString_Some asNumber_Some
      split: option.splits if_splits)

lemma createAiExpenseSchema_category:
  assumes "createAiExpenseSchema cats v = Some e"
  shows "category e \<in> set cats \<or> category e = ''Other''"
proof -
  from createAiExpenseSchema_object [OF assms] obtain kvs where "v = JObj kvs" by blast
  with assms createAiExpenseSchema_Some [of cats kvs e] show ?thesis by auto
qed

text \<open>The conversions throw on the values that are not plain, and on no other value.\<close>

lemma collect_map_Inr: "collect (map Inr vs) = Inr vs"
  by (induction vs) simp_all

lemma collect_Inl: "(\<exists>err. collect rs = Inl err) \<longleftrightarrow> (\<exists>r \<in> set rs. isl r)"
proof (induction rs)
  case Nil
  then show ?case by simp
next
  case (Cons r rs)
  then show ?case by (cases r) (auto split: sum.splits)
qed

lemma collect_Inl_elem: "collect rs = Inl err \<Longrightarrow> Inl err \<in> set rs"
proof (induction rs)
  case Nil
  then show ?case by simp
next
  case (Cons r rs)
  then show ?case by (cases r) (auto split: sum.splits)
qed

lemma js_String_throws: "(\<exists>err. js_String f v = Inl err) \<longleftrightarrow> \<not> plainValue v"
proof (induction f v rule: js_String.induct)
  case (5 f xs)
  have "(\<exists>err. js_String f (JArr xs) = Inl err) \<longleftrightarrow>
      (\<exists>err. collect (map (\<lambda>x. if x = JNull then Inr [] else js_String f x) xs) = Inl err)"
    by (auto split: sum.splits)
  also have "\<dots> \<longleftrightarrow> (\<exists>x \<in> set xs. x \<noteq> JNull \<and> isl (js_String f x))"
    by (auto simp add: collect_Inl)
  also have "\<dots> \<longleftrightarrow> (\<exists>x \<in> set xs. \<not> plainValue x)"
  proof -
    have "x \<noteq> JNull \<and> isl (js_String f x) \<longleftrightarrow> \<not> plainValue x" if "x \<in> set xs" for x
    proof (cases "x = JNull")
      case True
      then show ?thesis by simp
    next
      case False
      with 5 [OF that] show ?thesis by (auto simp add: isl_def)
    qed
    then show ?thesis by blast
  qed
  finally show ?case by (simp add: list_all_iff)
qed (simp_all add: cannotConvert_def)

lemma js_String_error: "js_String f v = Inl err \<Longrightarrow> err = cannotConvert"
proof (induction f v rule: js_String.induct)
  case (5 f xs)
  from 5(2) have "collect (map (\<lambda>x. if x = JNull then Inr [] else js_String f x) xs) = Inl err"
    by (auto split: sum.splits)
  from collect_Inl_elem [OF this] obtain x where "x \<in> set xs" "x \<noteq> JNull"
    "js_String f x = Inl err"
    by (auto split: if_splits)
  with 5(1) show ?case by blast
qed (simp_all split: if_splits)

lemma js_String_Inl: "js_String f v = Inl err \<longleftrightarrow> err = cannotConvert \<and> \<not> plainValue v"
  by (metis js_String_error js_String_throws)

lemma String_of_Inl:
  "String_of env v = Inl err \<longleftrightarrow> err = cannotConvert \<and> (\<exists>x. v = Some x \<and> \<not> plainValue x)"
  by (cases v) (auto simp add: String_of_def js_String_Inl)

lemma Number_of_Inl:
  "Number_of env v = Inl err \<longleftrightarrow> err = cannotConvert \<and> (\<exists>x. v = Some x \<and> \<not> plainValue x)"
proof (cases v)
  case None
  then show ?thesis by (simp add: Number_of_def)
next
  case (Some x)
  show ?thesis
  proof (cases x)
    case (JArr xs)
    have "(case js_String (numToString env) (JArr xs) of
             Inl err \<Rightarrow> Inl err | Inr s \<Rightarrow> Inr (strToNum env s)) = Inl err
       \<longleftrightarrow> js_String (numToString env) (JArr xs) = Inl err"
      by (cases "js_String (numToString env) (JArr xs)") auto
    with Some JArr js_String_Inl [of "numToString env" "JArr xs" err] show ?thesis
      by (simp add: Number_of_def del: js_String.simps plainValue.simps)
  qed (use Some in \<open>auto simp add: Number_of_def\<close>)
qed

lemma numberOrZero_Inl:
  "numberOrZero env v = Inl err \<longleftrightarrow> err = cannotConvert \<and> (\<exists>x. v = Some x \<and> \<not> plainValue x)"
  using Number_of_Inl [of env v err]
  by (cases "Number_of env v") (auto simp add: numberOrZero_def split: option.splits)

lemma not_plain_truthy: "\<not> plainValue x \<Longrightarrow> truthy x"
  by (cases x) simp_all

lemma orDefault_not_plain:
  "(\<exists>x. orDefault v d = Some x \<and> \<not> plainValue x) \<longleftrightarrow> (\<exists>x. v = Some x \<and> \<not> plainValue x)"
  using not_plain_truthy by (cases v) (auto simp add: orDefault_def)

lemma stringField_Inl:
  "stringField env (JObj kvs) k d = Inl err \<longleftrightarrow> err = cannotConvert \<and> raisingField kvs k"
  using orDefault_not_plain [of "map_of kvs k" d]
  by (auto simp add: stringField_def getProp_def String_of_Inl raisingField_def
      split: option.splits)

lemma categoryField_Inl:
  "categoryField env cats (JObj kvs) = Inl err \<longleftrightarrow>
     err = cannotConvert \<and> raisingField kvs ''category''"
proof -
  have "categoryField env cats (JObj kvs) = Inl err \<longleftrightarrow>
      String_of env (map_of kvs ''category'') = Inl err"
    by (cases "String_of env (map_of kvs ''category'')")
       (simp_all add: categoryField_def getProp_def)
  then show ?thesis
    by (auto simp add: String_of_Inl raisingField_def split: option.splits)
qed

lemma amountField_Inl:
  "amountField env (JObj kvs) = Inl err \<longleftrightarrow>
     err = cannotConvert \<and> raisingField kvs ''original_amount''"
  by (auto simp add: amountField_def getProp_def numberOrZero_Inl raisingField_def
      split: option.splits)

lemma field_Inr:
  "stringField env (JObj kvs) k d = Inr s \<Longrightarrow> \<not> raisingField kvs k"
  "categoryField env cats (JObj kvs) = Inr s \<Longrightarrow> \<not> raisingField kvs ''category''"
  "amountField env (JObj kvs) = Inr a \<Longrightarrow> \<not> raisingField kvs ''original_amount''"
  using stringField_Inl [of env kvs k d cannotConvert]
    categoryField_Inl [of env cats kvs cannotConvert]
    amountField_Inl [of env kvs cannotConvert]
  by auto

lemma coerce_object_Inl_dest:
  "coerce env cats (JObj kvs) = Inl err \<Longrightarrow>
     err = cannotConvert \<and> list_ex (raisingField kvs) coercedKeys"
  by (auto simp add: coerce_def coercedKeys_def stringField_Inl categoryField_Inl
      amountField_Inl split: sum.splits)

lemma coerce_object_Inr_dest:
  "coerce env cats (JObj kvs) = Inr e \<Longrightarrow> \<not> list_ex (raisingField kvs) coercedKeys"
  by (auto simp add: coerce_def coercedKeys_def split: sum.splits dest: field_Inr)

lemma coerce_object_Inl:
  "coerce env cats (JObj kvs) = Inl err \<longleftrightarrow>
     err = cannotConvert \<and> list_ex (raisingField kvs) coercedKeys"
  using coerce_object_Inl_dest [of env cats kvs] coerce_object_Inr_dest [of env cats kvs]
  by (cases "coerce env cats (JObj kvs)") auto

text \<open>
  The coercion reads no element of an array (none of the six keys is a property of an
  array), so it throws on no array.
\<close>

lemma coerce_array:
  "coerce env cats (JArr xs) =
     Inr \<lparr> date = [], description = [], merchant = [],
           category = (if ''undefined'' \<in> set cats then ''undefined'' else ''Other''),
           original_amount = 0, original_currency = ''SGD'' \<rparr>"
  by (simp add: coerce_def stringField_def categoryField_def amountField_def getProp_def
      orDefault_def String_of_def numberOrZero_def Number_of_def)

lemma createAiExpenseSchema_no_raising:
  "createAiExpenseSchema cats (JObj kvs) = Some e \<Longrightarrow>
   \<not> list_ex (raisingField kvs) coercedKeys"
  using createAiExpenseSchema_Some [of cats kvs e]
  by (auto simp add: coercedKeys_def raisingField_def)

text \<open>
  The items on which the schema of the extraction stream throws: the objects that the
  original schema rejects and that have, under one of the six keys, a value that is not
  plain. On every other item the schema returns a candidate.
\<close>

lemma schema_Inl:
  "createPermissiveExpenseSchema env cats el = Inl err \<longleftrightarrow>
     err = cannotConvert \<and> (\<exists>kvs. el = JObj kvs \<and> list_ex (raisingField kvs) coercedKeys)"
proof (cases el)
  case (JObj kvs)
  show ?thesis
  proof (cases "createAiExpenseSchema cats el")
    case None
    with JObj show ?thesis
      by (simp add: createPermissiveExpenseSchema_def permissiveSchema_def coerce_object_Inl)
  next
    case (Some e)
    with JObj createAiExpenseSchema_no_raising [of cats kvs e] show ?thesis
      by (simp add: createPermissiveExpenseSchema_def)
  qed
next
  case (JArr xs)
  then show ?thesis
    by (simp add: createPermissiveExpenseSchema_def permissiveSchema_def
        createAiExpenseSchema_def coerce_array)
qed (simp_all add: createPermissiveExpenseSchema_def permissiveSchema_def
       createAiExpenseSchema_def)

lemma schema_total_on_plain:
  assumes "\<And>kvs. el = JObj kvs \<Longrightarrow> \<not> list_ex (raisingField kvs) coercedKeys"
  shows "\<exists>e. createPermissiveExpenseSchema env cats el = Inr e"
proof (cases "createPermissiveExpenseSchema env cats el")
  case (Inl err)
  with schema_Inl [of env cats el err] assms show ?thesis by auto
next
  case (Inr e)
  then show ?thesis by simp
qed

text \<open>What the schema returns, when it returns.\<close>

lemma coerce_category:
  "coerce env cats v = Inr e \<Longrightarrow> category e \<in> set cats \<or> category e = ''Other''"
  by (auto simp add: coerce_def categoryField_def split: sum.splits if_splits)

lemma stringSchema_category:
  "category (stringSchema env cats s) \<in> set cats \<or>
   category (stringSchema env cats s) = ''Other''"
  using createAiExpenseSchema_category coerce_category
  by (auto simp add: stringSchema_def invalidJson_def split: option.splits sum.splits)

lemma schema_category:
  assumes "createPermissiveExpenseSchema env cats el = Inr e"
  shows "category e \<in> set cats \<or> category e = ''Other''"
proof (cases "createAiExpenseSchema cats el")
  case (Some e0)
  with assms createAiExpenseSchema_category [OF Some] show ?thesis
    by (simp add: createPermissiveExpenseSchema_def)
next
  case None
  show ?thesis
  proof (cases el)
    case (JStr s)
    with None assms stringSchema_category [of env cats s] show ?thesis
      by (auto simp add: createPermissiveExpenseSchema_def)
  next
    case (JArr xs)
    with None assms coerce_category [of env cats el e] show ?thesis
      by (simp add: createPermissiveExpenseSchema_def permissiveSchema_def)
  next
    case (JObj kvs)
    with None assms coerce_category [of env cats el e] show ?thesis
      by (simp add: createPermissiveExpenseSchema_def permissiveSchema_def)
  qed (use None assms in \<open>auto simp add: createPermissiveExpenseSchema_def
         permissiveSchema_def unknownDataType_def\<close>)
qed

lemma stringField_missing:
  "map_of kvs k = None \<Longrightarrow> stringField env (JObj kvs) k d = Inr d"
  by (simp add: stringField_def getProp_def orDefault_def String_of_def)

lemma amountField_missing:
  "map_of kvs ''original_amount'' = None \<Longrightarrow> amountField env (JObj kvs) = Inr 0"
  by (simp add: amountField_def getProp_def numberOrZero_def Number_of_def)

lemma schema_object:
  assumes "createPermissiveExpenseSchema env cats (JObj kvs) = Inr e"
  shows "(map_of kvs ''date'' = None \<longrightarrow> date e = [])
    \<and> (map_of kvs ''description'' = None \<longrightarrow> description e = [])
    \<and> (map_of kvs ''merchant'' = None \<longrightarrow> merchant e = [])
    \<and> (map_of kvs ''original_amount'' = None \<longrightarrow> original_amount e = 0)
    \<and> (map_of kvs ''original_currency'' = None \<longrightarrow> original_currency e = ''SGD'')"
proof (cases "createAiExpenseSchema cats (JObj kvs)")
  case (Some e0)
  with assms have "e = e0" by (simp add: createPermissiveExpenseSchema_def)
  with createAiExpenseSchema_Some [OF Some] show ?thesis by auto
next
  case None
  with assms have "coerce env cats (JObj kvs) = Inr e"
    by (simp add: createPermissiveExpenseSchema_def permissiveSchema_def)
  then show ?thesis
    by (auto simp add: coerce_def stringField_missing amountField_missing split: sum.splits)
qed

lemma schema_placeholders:
  "JSON_parse env s = None \<Longrightarrow>
   createPermissiveExpenseSchema env cats (JStr s) = Inr invalidJson"
  "JSON_parse env s = Some JNull \<Longrightarrow>
   createPermissiveExpenseSchema env cats (JStr s) = Inr invalidJson"
  "createPermissiveExpenseSchema env cats JNull = Inr unknownDataType"
  "createPermissiveExpenseSchema env cats (JBool b) = Inr unknownDataType"
  "createPermissiveExpenseSchema env cats (JNum x) = Inr unknownDataType"
  by (simp_all add: createPermissiveExpenseSchema_def permissiveSchema_def
      createAiExpenseSchema_def stringSchema_def coerce_def stringField_def getProp_def)

text \<open>
  The string schema has the coercion in its \<open>try\<close> block: on the text of an item on which
  the permissive schema throws, it returns the placeholder \<open>invalidJson\<close>.
\<close>

lemma stringSchema_catches:
  assumes "JSON_parse env s = Some (JObj kvs)" and "list_ex (raisingField kvs) coercedKeys"
  shows "createPermissiveExpenseSchema env cats (JStr s) = Inr invalidJson"
proof -
  from assms(2) have "coerce env cats (JObj kvs) = Inl cannotConvert"
    by (simp add: coerce_object_Inl)
  moreover have "createAiExpenseSchema cats (JObj kvs) = None"
    using createAiExpenseSchema_no_raising [of cats kvs] assms(2)
    by (cases "createAiExpenseSchema cats (JObj kvs)") auto
  ultimately show ?thesis
    using assms(1)
    by (simp add: createPermissiveExpenseSchema_def createAiExpenseSchema_def stringSchema_def)
qed

text \<open>
  Claim C3. The coercion of an item of the model's output is to raise on no item and to
  yield a candidate for each. The permissive schema, which is to accept anything, converts
  the fields of an object with \<open>String\<close> and \<open>Number\<close> outside any \<open>try\<close> block: on the
  item \<^verbatim>\<open>{"date": {"toString": 1}}\<close> the conversion of the date throws a \<open>TypeError\<close>,
  the schema raises it and yields no candidate, for every runtime and every list of
  categories. The schema raises on exactly the objects that have, under one of the six
  keys of a candidate, an object with an own property \<open>toString\<close> or an array with such an
  element.
\<close>

theorem permissive_schema_raises:
  "createPermissiveExpenseSchema env userCategories toStringItem = Inl cannotConvert
   \<and> (createPermissiveExpenseSchema env userCategories element = Inl err \<longleftrightarrow>
        err = cannotConvert \<and>
        (\<exists>kvs. element = JObj kvs \<and> list_ex (raisingField kvs) coercedKeys))"
proof -
  have "list_ex (raisingField [(''date'', JObj [(''toString'', JNum 1)])]) coercedKeys"
    by (simp add: raisingField_def coercedKeys_def)
  then have "createPermissiveExpenseSchema env userCategories toStringItem = Inl cannotConvert"
    by (simp add: schema_Inl toStringItem_def)
  with schema_Inl [of env userCategories element err] show ?thesis by simp
qed

subsection \<open>The steps of the ingestion pipeline\<close>

lemma getOrCreateCategoryByName_effect:
  "getOrCreateCategoryByName env st n u = (st1, r) \<Longrightarrow>
   expenses st1 = expenses st \<and> statements st1 = statements st \<and>
   merchant_mappings st1 = merchant_mappings st"
  by (auto simp add: getOrCreateCategoryByName_def categories_create_def Let_def
      split: sum.splits option.splits if_splits prod.splits)

text \<open>What \<open>convertExpenseToRecord\<close> returns when it returns a record.\<close>

lemma convertExpenseToRecord_Inr:
  assumes "convertExpenseToRecord env st e sid uid = (st1, Inr r)"
  shows "\<exists>mm cid.
      (if merchant e \<noteq> [] then getMerchantMapping env st uid (merchant e) else Inr None)
        = Inr mm
    \<and> getOrCreateCategoryByName env st
         (case mm of Some m \<Rightarrow> mm_category m
          | None \<Rightarrow> if original_currency e \<noteq> ''SGD'' then ''Travel'' else category e) uid
        = (st1, Inr cid)
    \<and> sid \<noteq> [] \<and> uid \<noteq> [] \<and> cid \<noteq> []
    \<and> r = \<lparr> statement_id = sid, user_id = uid, ins_date = date e,
            ins_description = description e, ins_merchant = Some (merchant e),
            amount_sgd = convertToSGD env (original_amount e) (original_currency e) (date e),
            ins_original_amount = original_amount e,
            ins_original_currency = original_currency e,
            currency = original_currency e,
            ins_category = (case mm of Some m \<Rightarrow> mm_category m
               | None \<Rightarrow> if original_currency e \<noteq> ''SGD'' then ''Travel'' else category e),
            category_id = Some cid,
            line_hash = createExpenseHash env (date e) (description e)
               (convertToSGD env (original_amount e) (original_currency e) (date e)) \<rparr>"
proof -
  let ?look = "if merchant e \<noteq> [] then getMerchantMapping env st uid (merchant e) else Inr None"
  from assms obtain mm where mm: "?look = Inr mm"
    by (cases ?look) (simp_all add: convertExpenseToRecord_def Let_def)
  let ?fc = "case mm of Some m \<Rightarrow> mm_category m
          | None \<Rightarrow> if original_currency e \<noteq> ''SGD'' then ''Travel'' else category e"
  obtain st' res where g: "getOrCreateCategoryByName env st ?fc uid = (st', res)"
    by (cases "getOrCreateCategoryByName env st ?fc uid")
  from assms mm g obtain cid where cid: "res = Inr cid" and st': "st' = st1"
    by (cases res) (auto simp add: convertExpenseToRecord_def Let_def split: sum.splits)
  from assms mm g cid st' show ?thesis
    by (auto simp add: convertExpenseToRecord_def Let_def transformAIInputToInsert_def
          expenseInsertDataSchema_parse_def split: sum.splits if_splits)
qed

lemma convertExpenseToRecord_effect:
  assumes "convertExpenseToRecord env st e sid uid = (st1, r)"
  shows "expenses st1 = expenses st \<and> statements st1 = statements st \<and>
         merchant_mappings st1 = merchant_mappings st"
proof -
  let ?look = "if merchant e \<noteq> [] then getMerchantMapping env st uid (merchant e) else Inr None"
  show ?thesis
  proof (cases ?look)
    case (Inl err)
    with assms show ?thesis by (simp add: convertExpenseToRecord_def Let_def)
  next
    case (Inr mm)
    let ?fc = "case mm of Some m \<Rightarrow> mm_category m
          | None \<Rightarrow> if original_currency e \<noteq> ''SGD'' then ''Travel'' else category e"
    obtain st' res where g: "getOrCreateCategoryByName env st ?fc uid = (st', res)"
      by (cases "getOrCreateCategoryByName env st ?fc uid")
    with assms Inr have "st1 = st'"
      by (auto simp add: convertExpenseToRecord_def Let_def split: sum.splits)
    with getOrCreateCategoryByName_effect [OF g] show ?thesis by simp
  qed
qed

text \<open>The record of \<open>convertExpenseToRecord\<close> passes the validation of the insertion.\<close>

lemma convertExpenseToRecord_valid:
  assumes "convertExpenseToRecord env st e sid uid = (st1, Inr r)"
  shows "validateExpenseInsert r = Inr r"
  using convertExpenseToRecord_Inr [OF assms]
  by (auto simp add: validateExpenseInsert_def expenseInsertDataSchema_parse_def)

text \<open>
  On a record that passes the validation, \<open>insertExpenseRecord\<close> never throws: whatever
  the error of the creation is, it returns \<open>false\<close> and leaves the store as it is.
\<close>

lemma insertExpenseRecord_valid:
  assumes "validateExpenseInsert r = Inr r'"
  shows "insertExpenseRecord env st r =
     (case expenses_create env st r' of
        Inr st' \<Rightarrow> (st', Inr True)
      | Inl err \<Rightarrow> (st, Inr False))"
  using assms by (simp add: insertExpenseRecord_def Let_def split: sum.split)

lemma insertExpenseRecord_after_convert:
  assumes "convertExpenseToRecord env st e sid uid = (st1, Inr r)"
  shows "insertExpenseRecord env st1 r =
     (case expenses_create env st1 r of
        Inr st' \<Rightarrow> (st', Inr True)
      | Inl err \<Rightarrow> (st1, Inr False))"
  by (rule insertExpenseRecord_valid [OF convertExpenseToRecord_valid [OF assms]])

lemma expenses_create_effect:
  "expenses_create env st r = Inr st' \<Longrightarrow> st' = st\<lparr>expenses := expenses st @ [r]\<rparr>"
  by (auto simp add: expenses_create_def split: option.splits if_splits)

lemma insertExpenseRecord_effect:
  assumes "insertExpenseRecord env st r = (st2, res)"
  shows "categories st2 = categories st \<and> statements st2 = statements st \<and>
         merchant_mappings st2 = merchant_mappings st"
proof (cases "validateExpenseInsert r")
  case (Inl err)
  with assms show ?thesis by (simp add: insertExpenseRecord_def)
next
  case (Inr r')
  show ?thesis
  proof (cases "expenses_create env st r'")
    case (Inl err)
    with assms Inr show ?thesis by (simp add: insertExpenseRecord_valid)
  next
    case Inr2: (Inr st')
    with assms Inr expenses_create_effect [OF Inr2] show ?thesis
      by (auto simp add: insertExpenseRecord_valid)
  qed
qed

lemma insertExpenseRecord_shape:
  assumes "validateExpenseInsert r = Inr r"
  shows "\<exists>ys b. insertExpenseRecord env st r = (st\<lparr>expenses := ys\<rparr>, Inr b)"
proof (cases "expenses_create env st r")
  case (Inl err)
  with insertExpenseRecord_valid [OF assms, of env st]
  have "insertExpenseRecord env st r = (st\<lparr>expenses := expenses st\<rparr>, Inr False)"
    by simp
  then show ?thesis by blast
next
  case (Inr st')
  with insertExpenseRecord_valid [OF assms, of env st] expenses_create_effect [OF Inr]
  show ?thesis by auto
qed

lemma processElements_effect:
  "processElements env sid uid st n els = (st', res) \<Longrightarrow>
   statements st' = statements st \<and> merchant_mappings st' = merchant_mappings st"
proof (induction els arbitrary: st n)
  case Nil
  then show ?case by simp
next
  case (Cons e els)
  obtain st1 r1 where c: "convertExpenseToRecord env st e sid uid = (st1, r1)"
    by (cases "convertExpenseToRecord env st e sid uid")
  show ?case
  proof (cases r1)
    case (Inl err)
    with Cons.prems c convertExpenseToRecord_effect [OF c] show ?thesis by simp
  next
    case (Inr r)
    obtain st2 r2 where i: "insertExpenseRecord env st1 r = (st2, r2)"
      by (cases "insertExpenseRecord env st1 r")
    show ?thesis
    proof (cases r2)
      case (Inl err)
      with Cons.prems c Inr i convertExpenseToRecord_effect [OF c]
        insertExpenseRecord_effect [OF i]
      show ?thesis by simp
    next
      case Inr2: (Inr b)
      with Cons.prems c Inr i
      have "processElements env sid uid st2 (Suc n) els = (st', res)" by simp
      from Cons.IH [OF this] convertExpenseToRecord_effect [OF c]
        insertExpenseRecord_effect [OF i]
      show ?thesis by simp
    qed
  qed
qed

text \<open>A loop that ends without a throw has counted every element.\<close>

lemma processElements_count:
  "processElements env sid uid st n els = (st', Inr m) \<Longrightarrow> m = n + length els"
proof (induction els arbitrary: st n)
  case Nil
  then show ?case by simp
next
  case (Cons e els)
  from Cons.prems show ?case
    by (auto split: prod.splits sum.splits dest: Cons.IH)
qed

lemma map_of_update_row:
  "map_of (map (\<lambda>row. if fst row = k then (k, v) else row) rows) k' =
     (if k' = k \<and> map_of rows k \<noteq> None then Some v else map_of rows k')"
  by (induction rows) auto

lemma list_ex_fst: "list_ex (\<lambda>row. fst row = k) rows \<longleftrightarrow> map_of rows k \<noteq> None"
  by (induction rows) auto

lemma updateStatementStatus_ok:
  assumes "statusOf st sid \<noteq> None" and "fault env (UpdateStatement sid s) = None"
  shows "\<exists>st2. updateStatementStatus env st sid s = Inr st2 \<and> statusOf st2 sid = Some s
     \<and> expenses st2 = expenses st \<and> categories st2 = categories st"
  using assms
  by (simp add: updateStatementStatus_def statements_updateStatus_def statusOf_def list_ex_fst
      map_of_update_row)

lemma updateStatementStatus_Inr:
  "updateStatementStatus env st sid s = Inr st2 \<Longrightarrow>
   statusOf st2 sid = Some s \<and> expenses st2 = expenses st \<and> categories st2 = categories st"
  by (auto simp add: updateStatementStatus_def statements_updateStatus_def statusOf_def list_ex_fst
        map_of_update_row split: option.splits if_splits)

lemma tryProcess_unfold:
  assumes "categories_getFullList env st uid = Inr cats"
      and "extractExpensesFromPdf env buf (map cat_name cats) = (els, failure)"
      and "processElements env sid uid st 0 els = (st1, res)"
  shows "tryProcess env st buf sid uid =
     (case res of
        Inl err \<Rightarrow> (st1, Inl err)
      | Inr n \<Rightarrow>
          (case failure of
             Some err \<Rightarrow> (st1, Inl err)
           | None \<Rightarrow>
               if n = 0 then (st1, Inl (Error ''AI failed to extract any transactions.''))
               else (case updateStatementStatus env st1 sid Completed of
                       Inl err \<Rightarrow> (st1, Inl err)
                     | Inr st2 \<Rightarrow> (st2, Inr ()))))"
  using assms by (simp add: tryProcess_def Let_def split: sum.split)

lemma tryProcess_statements:
  assumes "tryProcess env st buf sid uid = (st1, Inl err)"
  shows "statements st1 = statements st"
proof (cases "categories_getFullList env st uid")
  case (Inl e)
  with assms show ?thesis by (simp add: tryProcess_def)
next
  case (Inr cats)
  obtain els failure where
    ex: "extractExpensesFromPdf env buf (map cat_name cats) = (els, failure)"
    by (cases "extractExpensesFromPdf env buf (map cat_name cats)")
  obtain s res where pe: "processElements env sid uid st 0 els = (s, res)"
    by (cases "processElements env sid uid st 0 els")
  from assms tryProcess_unfold [OF Inr ex pe] have "st1 = s"
    by (auto split: sum.splits option.splits if_splits)
  with processElements_effect [OF pe] show ?thesis by simp
qed

text \<open>
  The \<open>catch\<close> of \<open>processPdfExpenses\<close>: when the statement exists and the backend
  accepts the write of the status, an error of the \<open>try\<close> block is thrown again and the
  status is \<open>failed\<close>.
\<close>

lemma processPdfExpenses_Inl:
  assumes ex: "statusOf st sid \<noteq> None" and wr: "fault env (UpdateStatement sid Failed) = None"
      and t: "tryProcess env st buf sid uid = (st1, Inl err)"
  shows "snd (processPdfExpenses env st buf sid uid) = Inl err
       \<and> statusOf (fst (processPdfExpenses env st buf sid uid)) sid = Some Failed
       \<and> expenses (fst (processPdfExpenses env st buf sid uid)) = expenses st1"
proof -
  from tryProcess_statements [OF t] ex have "statusOf st1 sid \<noteq> None"
    by (simp add: statusOf_def)
  from updateStatementStatus_ok [OF this wr] obtain st2 where
    "updateStatementStatus env st1 sid Failed = Inr st2" "statusOf st2 sid = Some Failed"
    "expenses st2 = expenses st1"
    by auto
  with t show ?thesis by (simp add: processPdfExpenses_def)
qed

lemma processPdfExpenses_Inr:
  assumes t: "tryProcess env st buf sid uid = (st1, Inr u)"
  shows "processPdfExpenses env st buf sid uid = (st1, Inr ())"
  using t by (simp add: processPdfExpenses_def)

text \<open>A run that returns has written the status \<open>completed\<close>.\<close>

lemma processPdfExpenses_completed:
  assumes "processPdfExpenses env st buf sid uid = (st', Inr u)"
  shows "statusOf st' sid = Some Completed"
proof -
  from assms have t: "tryProcess env st buf sid uid = (st', Inr ())"
    by (auto simp add: processPdfExpenses_def split: prod.splits sum.splits)
  then obtain s where "updateStatementStatus env s sid Completed = Inr st'"
    by (auto simp add: tryProcess_def Let_def
        split: prod.splits sum.splits option.splits if_splits)
  from updateStatementStatus_Inr [OF this] show ?thesis by simp
qed

subsection \<open>The concrete runs\<close>

lemma coffeeEnv_fields:
  "fault coffeeEnv = (\<lambda>req. None)"
  "convertToSGD coffeeEnv = (\<lambda>a c d. a)"
  "sha256 coffeeEnv = (\<lambda>s. s)"
  "numToString coffeeEnv = numToString2"
  "elementStream coffeeEnv =
     (\<lambda>schema fileBuffer userCategories. (deliverValid schema [coffeeElement], None))"
  "uniqueMessage coffeeEnv = ''Failed to create record.''"
  by (simp_all add: coffeeEnv_def exampleEnv_def)

lemma insertsFailEnv_fields:
  "fault insertsFailEnv =
     (\<lambda>req. case req of CreateExpense r \<Rightarrow> Some ''connection refused'' | _ \<Rightarrow> None)"
  "convertToSGD insertsFailEnv = (\<lambda>a c d. a)"
  "sha256 insertsFailEnv = (\<lambda>s. s)"
  "numToString insertsFailEnv = numToString2"
  "elementStream insertsFailEnv =
     (\<lambda>schema fileBuffer userCategories. (deliverValid schema [coffeeElement], None))"
  by (simp_all add: insertsFailEnv_def coffeeEnv_def exampleEnv_def)

lemma coffee_schema:
  "createPermissiveExpenseSchema env [''Dining''] coffeeElement = Inr coffeeExpense"
  by (simp add: createPermissiveExpenseSchema_def createAiExpenseSchema_def coffeeElement_def
      coffeeExpense_def asString_def asNumber_def)

lemma coffee_extract:
  "extractExpensesFromPdf coffeeEnv buf (map cat_name [dining]) = ([coffeeExpense], None)"
  "extractExpensesFromPdf insertsFailEnv buf (map cat_name [dining]) = ([coffeeExpense], None)"
  by (simp_all add: extractExpensesFromPdf_def coffee_schema coffeeEnv_fields
      insertsFailEnv_fields dining_def)

lemma toUpperCase_examples:
  "toUpperCase js ''Starbucks'' = ''STARBUCKS''"
  "toUpperCase exampleEnv cafe = cafeUpper"
  "toUpperCase coffeeEnv cafe = cafeUpper"
  by (simp_all add: toUpperCase_def isAscii_def upper_char_def cafe_def cafeUpper_def
      coffeeEnv_def exampleEnv_def exampleUpper_def)

lemma coffee_convert:
  "convertExpenseToRecord coffeeEnv reuploadStore coffeeExpense ''s1'' ''u1'' =
     (reuploadStore, Inr coffeeRecord)"
  "convertExpenseToRecord coffeeEnv uploadStore coffeeExpense ''s1'' ''u1'' =
     (uploadStore, Inr coffeeRecord)"
  "convertExpenseToRecord insertsFailEnv uploadStore coffeeExpense ''s1'' ''u1'' =
     (uploadStore, Inr coffeeRecord)"
  by (simp_all add: convertExpenseToRecord_def Let_def getMerchantMapping_def
      merchant_mappings_first_def getOrCreateCategoryByName_def categories_getFullList_def
      transformAIInputToInsert_def expenseInsertDataSchema_parse_def coffeeEnv_fields
      insertsFailEnv_fields coffeeExpense_def coffeeRecord_def reuploadStore_def
      uploadStore_def dining_def createExpenseHash_def numToString2_def toLowerCase_examples
      toUpperCase_examples)

lemma coffee_listing:
  "categories_getFullList coffeeEnv reuploadStore ''u1'' = Inr [dining]"
  "categories_getFullList coffeeEnv uploadStore ''u1'' = Inr [dining]"
  "categories_getFullList insertsFailEnv uploadStore ''u1'' = Inr [dining]"
  "categories_getFullList exampleEnv uploadStore ''u1'' = Inr [dining]"
  by (simp_all add: categories_getFullList_def coffeeEnv_fields insertsFailEnv_fields
      exampleEnv_def reuploadStore_def uploadStore_def dining_def)

lemma coffee_statement:
  "statusOf uploadStore ''s1'' = Some Processing"
  "statusOf reuploadStore ''s1'' = Some Processing"
  by (simp_all add: statusOf_def reuploadStore_def uploadStore_def)

lemma lookupsFailEnv_fields:
  "fault lookupsFailEnv =
     (\<lambda>req. case req of FirstMerchantMapping u n \<Rightarrow> Some ''connection refused'' | _ \<Rightarrow> None)"
  "elementStream lookupsFailEnv =
     (\<lambda>schema fileBuffer userCategories. (deliverValid schema [coffeeElement], None))"
  by (simp_all add: lookupsFailEnv_def coffeeEnv_def exampleEnv_def)

lemma statusWritesFailEnv_fields:
  "fault statusWritesFailEnv =
     (\<lambda>req. case req of UpdateStatement s v \<Rightarrow> Some ''service unavailable'' | _ \<Rightarrow> None)"
  "elementStream statusWritesFailEnv = (\<lambda>schema fileBuffer userCategories. ([], None))"
  by (simp_all add: statusWritesFailEnv_def exampleEnv_def)

text \<open>
  The loop on the coffee, with a backend that creates the expense and with one that
  refuses every creation of an expense.
\<close>

lemma coffee_loop:
  "processElements coffeeEnv ''s1'' ''u1'' uploadStore 0 [coffeeExpense] =
      (uploadStore\<lparr>expenses := [coffeeRecord]\<rparr>, Inr 1)"
  "processElements insertsFailEnv ''s1'' ''u1'' uploadStore 0 [coffeeExpense] =
      (uploadStore, Inr 1)"
proof -
  have "expenses_create coffeeEnv uploadStore coffeeRecord =
      Inr (uploadStore\<lparr>expenses := [coffeeRecord]\<rparr>)"
    by (simp add: expenses_create_def coffeeEnv_fields uploadStore_def)
  with insertExpenseRecord_after_convert [OF coffee_convert(2)]
  show "processElements coffeeEnv ''s1'' ''u1'' uploadStore 0 [coffeeExpense] =
      (uploadStore\<lparr>expenses := [coffeeRecord]\<rparr>, Inr 1)"
    by (simp add: coffee_convert(2))
  have "expenses_create insertsFailEnv uploadStore coffeeRecord =
      Inl (Error ''connection refused'')"
    by (simp add: expenses_create_def insertsFailEnv_fields)
  with insertExpenseRecord_after_convert [OF coffee_convert(3)]
  show "processElements insertsFailEnv ''s1'' ''u1'' uploadStore 0 [coffeeExpense] =
      (uploadStore, Inr 1)"
    by (simp add: coffee_convert(3))
qed

text \<open>The loop on the coffee when the lookup of the merchant mapping fails.\<close>

lemma lookups_fail:
  "categories_getFullList lookupsFailEnv uploadStore ''u1'' = Inr [dining]"
  "extractExpensesFromPdf lookupsFailEnv ''%PDF'' (map cat_name [dining])
     = ([coffeeExpense], None)"
  "processElements lookupsFailEnv ''s1'' ''u1'' uploadStore 0 [coffeeExpense]
     = (uploadStore, Inl (Error ''connection refused''))"
  by (simp_all add: categories_getFullList_def extractExpensesFromPdf_def coffee_schema
      convertExpenseToRecord_def getMerchantMapping_def merchant_mappings_first_def Let_def
      lookupsFailEnv_fields uploadStore_def dining_def coffeeExpense_def)

text \<open>The \<open>try\<close> block on a document that yields nothing.\<close>

lemma status_writes_fail:
  "tryProcess statusWritesFailEnv uploadStore ''%PDF'' ''s1'' ''u1''
     = (uploadStore, Inl (Error ''AI failed to extract any transactions.''))"
  "tryProcess exampleEnv uploadStore ''%PDF'' ''s1'' ''u1''
     = (uploadStore, Inl (Error ''AI failed to extract any transactions.''))"
  by (simp_all add: tryProcess_def extractExpensesFromPdf_def categories_getFullList_def
      statusWritesFailEnv_fields exampleEnv_def)

text \<open>The stream that ends with an error.\<close>

lemma stream_fails:
  "fault streamFailsEnv = (\<lambda>req. None)"
  "categories_getFullList streamFailsEnv uploadStore ''u1'' = Inr [dining]"
  "extractExpensesFromPdf streamFailsEnv ''%PDF'' (map cat_name [dining])
     = ([], Some (Error ''model overloaded''))"
  by (simp_all add: categories_getFullList_def extractExpensesFromPdf_def streamFailsEnv_def
      exampleEnv_def uploadStore_def dining_def)

subsection \<open>The final category\<close>

lemma find_unique_key:
  assumes "distinct (map key ms)" and "m \<in> set ms"
  shows "find (\<lambda>x. key x = key m) ms = Some m"
  using assms by (induction ms) (auto simp add: rev_image_eqI)

lemma find_mapping:
  assumes "mappingsWellFormed ms" and "m \<in> set ms" and "mm_user_id m = uid"
      and "merchant_name m = nm"
  shows "find (\<lambda>x. mm_user_id x = uid \<and> merchant_name x = nm) ms = Some m"
proof -
  from assms(1) have "distinct (map (\<lambda>m. (mm_user_id m, merchant_name m)) ms)"
    by (simp add: mappingsWellFormed_def)
  from find_unique_key [OF this assms(2)] assms(3,4) show ?thesis by simp
qed

text \<open>
  Claim C4. The store of merchant mappings satisfies the constraints of its collection
  (names are not empty and are unique per user), and \<open>convertExpenseToRecord\<close> returns a
  record. When a mapping of the user is stored under the upper-cased merchant name of the
  candidate (the match is insensitive to the case of the candidate's merchant, by the
  \<open>toUpperCase\<close> of the runtime), the category of the record is the category of the
  mapping, whatever the currency is. When there is none, the category is \<open>Travel\<close> for a
  currency other than \<open>SGD\<close> and the extracted category otherwise.
\<close>

theorem final_category:
  assumes wf: "mappingsWellFormed (merchant_mappings st)"
      and conv: "convertExpenseToRecord env st expense statementId userId
                   = (st1, Inr expenseRecord)"
  shows "(\<forall>m \<in> set (merchant_mappings st).
            mm_user_id m = userId \<and> merchant_name m = toUpperCase env (merchant expense) \<longrightarrow>
            ins_category expenseRecord = mm_category m)
       \<and> ((\<forall>m \<in> set (merchant_mappings st).
            \<not> (mm_user_id m = userId \<and>
               merchant_name m = toUpperCase env (merchant expense))) \<longrightarrow>
            ins_category expenseRecord =
              (if original_currency expense \<noteq> ''SGD'' then ''Travel'' else category expense))"
proof -
  from convertExpenseToRecord_Inr [OF conv] obtain mm cid where
    look: "(if merchant expense \<noteq> [] then getMerchantMapping env st userId (merchant expense)
            else Inr None) = Inr mm"
    and cat: "ins_category expenseRecord =
       (case mm of Some m \<Rightarrow> mm_category m
        | None \<Rightarrow> if original_currency expense \<noteq> ''SGD'' then ''Travel'' else category expense)"
    by auto
  let ?P = "\<lambda>m. mm_user_id m = userId \<and> merchant_name m = toUpperCase env (merchant expense)"
  have mm: "mm = find ?P (merchant_mappings st)"
  proof (cases "merchant expense = []")
    case True
    from wf have "\<forall>m \<in> set (merchant_mappings st). merchant_name m \<noteq> []"
      by (simp add: mappingsWellFormed_def list_all_iff)
    with True have "find ?P (merchant_mappings st) = None"
      by (auto simp add: find_None_iff toUpperCase_def isAscii_def)
    with True look show ?thesis by simp
  next
    case False
    with look show ?thesis
      by (auto simp add: getMerchantMapping_def merchant_mappings_first_def Let_def
          split: option.splits)
  qed
  show ?thesis
  proof (intro conjI ballI impI)
    fix m assume "m \<in> set (merchant_mappings st)" and "?P m"
    with find_mapping [OF wf, of m userId "toUpperCase env (merchant expense)"] mm cat
    show "ins_category expenseRecord = mm_category m" by simp
  next
    assume "\<forall>m \<in> set (merchant_mappings st). \<not> ?P m"
    then have "find ?P (merchant_mappings st) = None" by (simp add: find_None_iff)
    with mm cat show "ins_category expenseRecord =
        (if original_currency expense \<noteq> ''SGD'' then ''Travel'' else category expense)"
      by simp
  qed
qed

text \<open>
  A candidate in US dollars with the extracted category \<open>Other\<close>: with the mapping of
  its merchant to \<open>Dining\<close> the category of the record is \<open>Dining\<close>; in the store
  without mappings it is \<open>Travel\<close>, and a category \<open>Travel\<close> is created. A candidate in
  euros whose merchant has a letter outside ASCII, with a mapping stored under the
  upper-cased name: the category of the record is the one of the mapping.
\<close>

lemma foreign_convert:
  "convertExpenseToRecord coffeeEnv mappedStore
      (coffeeExpense\<lparr>category := ''Other'', original_currency := ''USD''\<rparr>) ''s1'' ''u1'' =
     (mappedStore,
      Inr (coffeeRecord\<lparr>ins_original_currency := ''USD'', currency := ''USD''\<rparr>))"
  "convertExpenseToRecord coffeeEnv uploadStore
      (coffeeExpense\<lparr>category := ''Other'', original_currency := ''USD''\<rparr>) ''s1'' ''u1'' =
     (uploadStore\<lparr>categories :=
        [dining, \<lparr> cat_id = ''c1'', cat_user_id = ''u1'', cat_name = ''Travel'',
                   cat_description = None, is_default = False \<rparr>]\<rparr>,
      Inr (coffeeRecord\<lparr>ins_original_currency := ''USD'', currency := ''USD'',
             ins_category := ''Travel'', category_id := Some ''c1''\<rparr>))"
  by (simp_all add: convertExpenseToRecord_def Let_def getMerchantMapping_def
      merchant_mappings_first_def getOrCreateCategoryByName_def categories_getFullList_def
      categories_create_def sqlite_lower_def transformAIInputToInsert_def
      expenseInsertDataSchema_parse_def coffeeEnv_fields coffeeEnv_def exampleEnv_def
      coffeeExpense_def coffeeRecord_def mappedStore_def uploadStore_def dining_def
      createExpenseHash_def numToString2_def toLowerCase_def isAscii_def lower_char_def
      toUpperCase_examples)

lemma cafe_convert:
  "convertExpenseToRecord coffeeEnv cafeStore cafeExpense ''s1'' ''u1'' =
     (cafeStore,
      Inr (coffeeRecord\<lparr>ins_merchant := Some cafe, ins_original_currency := ''EUR'',
             currency := ''EUR''\<rparr>))"
proof -
  have "cafe \<noteq> []" by (simp add: cafe_def)
  then show ?thesis
    by (simp add: convertExpenseToRecord_def Let_def getMerchantMapping_def
        merchant_mappings_first_def getOrCreateCategoryByName_def categories_getFullList_def
        transformAIInputToInsert_def expenseInsertDataSchema_parse_def coffeeEnv_fields
        cafeExpense_def coffeeRecord_def cafeStore_def uploadStore_def dining_def
        createExpenseHash_def numToString2_def toUpperCase_examples)
qed

theorem final_category_witness:
  "mappingsWellFormed (merchant_mappings mappedStore)
   \<and> convertExpenseToRecord coffeeEnv mappedStore
        (coffeeExpense\<lparr>category := ''Other'', original_currency := ''USD''\<rparr>) ''s1'' ''u1'' =
       (mappedStore, Inr (coffeeRecord\<lparr>ins_original_currency := ''USD'', currency := ''USD''\<rparr>))
   \<and> ins_category (coffeeRecord\<lparr>ins_original_currency := ''USD'', currency := ''USD''\<rparr>)
       = ''Dining''
   \<and> mappingsWellFormed (merchant_mappings uploadStore)
   \<and> snd (convertExpenseToRecord coffeeEnv uploadStore
        (coffeeExpense\<lparr>category := ''Other'', original_currency := ''USD''\<rparr>) ''s1'' ''u1'') =
       Inr (coffeeRecord\<lparr>ins_original_currency := ''USD'', currency := ''USD'',
              ins_category := ''Travel'', category_id := Some ''c1''\<rparr>)
   \<and> mappingsWellFormed (merchant_mappings cafeStore)
   \<and> toUpperCase coffeeEnv (merchant cafeExpense) = cafeUpper
   \<and> snd (convertExpenseToRecord coffeeEnv cafeStore cafeExpense ''s1'' ''u1'') =
       Inr (coffeeRecord\<lparr>ins_merchant := Some cafe, ins_original_currency := ''EUR'',
              currency := ''EUR''\<rparr>)
   \<and> ins_category (coffeeRecord\<lparr>ins_merchant := Some cafe, ins_original_currency := ''EUR'',
        currency := ''EUR''\<rparr>) = ''Dining''"
proof -
  have wf: "mappingsWellFormed (merchant_mappings mappedStore)"
    "mappingsWellFormed (merchant_mappings uploadStore)"
    "mappingsWellFormed (merchant_mappings cafeStore)"
    by (simp_all add: mappingsWellFormed_def mappedStore_def uploadStore_def cafeStore_def
        cafeUpper_def)
  have up: "toUpperCase coffeeEnv (merchant cafeExpense) = cafeUpper"
    by (simp add: cafeExpense_def toUpperCase_examples)
  from final_category [OF wf(1) foreign_convert(1)]
  have one: "ins_category (coffeeRecord\<lparr>ins_original_currency := ''USD'', currency := ''USD''\<rparr>)
       = ''Dining''"
    by (simp add: mappedStore_def coffeeExpense_def toUpperCase_examples)
  from final_category [OF wf(2) foreign_convert(2)]
  have two: "ins_category (coffeeRecord\<lparr>ins_original_currency := ''USD'', currency := ''USD'',
              ins_category := ''Travel'', category_id := Some ''c1''\<rparr>) = ''Travel''"
    by (simp add: uploadStore_def)
  from final_category [OF wf(3) cafe_convert]
  have three: "ins_category (coffeeRecord\<lparr>ins_merchant := Some cafe,
        ins_original_currency := ''EUR'', currency := ''EUR''\<rparr>) = ''Dining''"
    by (simp add: cafeStore_def up)
  from wf up one three foreign_convert cafe_convert show ?thesis by simp
qed

subsection \<open>Uniqueness violations\<close>

text \<open>
  Claim C1. A candidate is converted to a record, and the store already holds an expense
  with the user id and the line hash of the record, so that the creation fails on the
  unique index. Then \<open>insertExpenseRecord\<close> throws nothing: it returns \<open>false\<close> and
  leaves the store as it is (a no-op, with no second attempt); the loop goes on with the
  elements that follow, the candidate counted; and when the candidate is the only one of
  the stream, the statement exists and the backend accepts the write of its status, the
  run returns with the status \<open>completed\<close> and the expenses unchanged.
\<close>

theorem uniqueness_violation_is_absorbed:
  assumes conv: "convertExpenseToRecord env st expense statementId userId
                   = (st1, Inr expenseRecord)"
      and dup: "list_ex (\<lambda>x. user_id x = user_id expenseRecord \<and>
                              line_hash x = line_hash expenseRecord) (expenses st1)"
      and nofault: "fault env (CreateExpense expenseRecord) = None"
  shows "expenses_create env st1 expenseRecord = Inl (Error (uniqueMessage env))
       \<and> insertExpenseRecord env st1 expenseRecord = (st1, Inr False)
       \<and> processElements env statementId userId st expenseCount (expense # rest) =
           processElements env statementId userId st1 (Suc expenseCount) rest
       \<and> (categories_getFullList env st userId = Inr userCategories \<and>
          extractExpensesFromPdf env fileBuffer (map cat_name userCategories)
            = ([expense], None) \<and>
          statusOf st statementId \<noteq> None \<and>
          fault env (UpdateStatement statementId Completed) = None \<longrightarrow>
            snd (processPdfExpenses env st fileBuffer statementId userId) = Inr () \<and>
            statusOf (fst (processPdfExpenses env st fileBuffer statementId userId)) statementId
              = Some Completed \<and>
            expenses (fst (processPdfExpenses env st fileBuffer statementId userId))
              = expenses st)"
proof -
  from dup nofault
  have create: "expenses_create env st1 expenseRecord = Inl (Error (uniqueMessage env))"
    by (simp add: expenses_create_def)
  with insertExpenseRecord_after_convert [OF conv]
  have ins: "insertExpenseRecord env st1 expenseRecord = (st1, Inr False)" by simp
  from conv ins have loop: "processElements env statementId userId st n (expense # rest) =
           processElements env statementId userId st1 (Suc n) rest" for n rest
    by simp
  have whole: "snd (processPdfExpenses env st fileBuffer statementId userId) = Inr () \<and>
            statusOf (fst (processPdfExpenses env st fileBuffer statementId userId)) statementId
              = Some Completed \<and>
            expenses (fst (processPdfExpenses env st fileBuffer statementId userId))
              = expenses st"
    if a: "categories_getFullList env st userId = Inr userCategories \<and>
          extractExpensesFromPdf env fileBuffer (map cat_name userCategories)
            = ([expense], None) \<and>
          statusOf st statementId \<noteq> None \<and>
          fault env (UpdateStatement statementId Completed) = None"
  proof -
    from loop [of 0 "[]"]
    have pe: "processElements env statementId userId st 0 [expense] = (st1, Inr 1)"
      by simp
    from convertExpenseToRecord_effect [OF conv] a have "statusOf st1 statementId \<noteq> None"
      by (simp add: statusOf_def)
    with a updateStatementStatus_ok [of st1 statementId env Completed] obtain st2 where
      u: "updateStatementStatus env st1 statementId Completed = Inr st2"
      and s: "statusOf st2 statementId = Some Completed"
      and e: "expenses st2 = expenses st1" by auto
    from a tryProcess_unfold [OF _ _ pe, of userCategories fileBuffer None] u
    have "tryProcess env st fileBuffer statementId userId = (st2, Inr ())" by simp
    from processPdfExpenses_Inr [OF this] s e convertExpenseToRecord_effect [OF conv]
    show ?thesis by simp
  qed
  from create ins loop whole show ?thesis by blast
qed

theorem uniqueness_violation_is_absorbed_witness:
  "convertExpenseToRecord coffeeEnv reuploadStore coffeeExpense ''s1'' ''u1''
     = (reuploadStore, Inr coffeeRecord)
   \<and> list_ex (\<lambda>x. user_id x = user_id coffeeRecord \<and> line_hash x = line_hash coffeeRecord)
       (expenses reuploadStore)
   \<and> insertExpenseRecord coffeeEnv reuploadStore coffeeRecord = (reuploadStore, Inr False)
   \<and> snd (processPdfExpenses coffeeEnv reuploadStore ''%PDF'' ''s1'' ''u1'') = Inr ()
   \<and> statusOf (fst (processPdfExpenses coffeeEnv reuploadStore ''%PDF'' ''s1'' ''u1'')) ''s1''
       = Some Completed
   \<and> expenses (fst (processPdfExpenses coffeeEnv reuploadStore ''%PDF'' ''s1'' ''u1''))
       = expenses reuploadStore"
proof -
  have dup: "list_ex (\<lambda>x. user_id x = user_id coffeeRecord \<and>
      line_hash x = line_hash coffeeRecord) (expenses reuploadStore)"
    by (simp add: reuploadStore_def coffeeRecord_def)
  have nofault: "fault coffeeEnv (CreateExpense coffeeRecord) = None"
    by (simp add: coffeeEnv_fields)
  have wr: "fault coffeeEnv (UpdateStatement ''s1'' Completed) = None"
    by (simp add: coffeeEnv_fields)
  from uniqueness_violation_is_absorbed
         [OF coffee_convert(1) dup nofault, of _ _ "[dining]" "''%PDF''"]
    coffee_listing(1) coffee_extract(1) coffee_statement(2) wr coffee_convert(1) dup
  show ?thesis by simp
qed

subsection \<open>The status of the statement after a run\<close>

text \<open>
  The \<open>catch\<close> of \<open>processPdfExpenses\<close> when the backend does not accept the write of
  the status \<open>failed\<close>: the write throws, its error leaves the function in place of the
  error of the \<open>try\<close> block, and the statuses are the ones before the run.
\<close>

lemma updateStatementStatus_refused:
  assumes "\<not> acceptsStatus env st sid s"
  shows "updateStatementStatus env st sid s = Inl (refusal env sid s)"
  using assms
  by (auto simp add: acceptsStatus_def refusal_def updateStatementStatus_def
      statements_updateStatus_def statusOf_def list_ex_fst split: option.splits)

lemma processPdfExpenses_refused:
  assumes refused: "\<not> acceptsStatus env st sid Failed"
      and t: "tryProcess env st buf sid uid = (st1, Inl err)"
  shows "processPdfExpenses env st buf sid uid = (st1, Inl (refusal env sid Failed))
       \<and> statusOf st1 sid = statusOf st sid"
proof -
  from tryProcess_statements [OF t] have same: "statusOf st1 sid = statusOf st sid"
    by (simp add: statusOf_def)
  with refused have "\<not> acceptsStatus env st1 sid Failed"
    by (simp add: acceptsStatus_def)
  from updateStatementStatus_refused [OF this] t same show ?thesis
    by (simp add: processPdfExpenses_def)
qed

text \<open>
  Claim C2, as amended. For a run of \<open>processPdfExpenses\<close>:
  \<^item> when the backend accepts the write of the status \<open>failed\<close>: if the stream yields no
    candidate (and does not fail), the run throws the error
    \<open>AI failed to extract any transactions.\<close>, the status is \<open>failed\<close> and no expense is
    added; if the loop throws or the stream ends with an error, and more generally if
    anything in the \<open>try\<close> block throws, the run throws the same error and the status is
    \<open>failed\<close>;
  \<^item> when the backend accepts the write of the status \<open>completed\<close>: if the stream yields
    at least one candidate and the loop ends without a throw, the run returns and the
    status is \<open>completed\<close>;
  \<^item> when the backend does not accept the write of the status \<open>failed\<close> and the \<open>try\<close>
    block throws, the run throws the error of the write, not the one of the \<open>try\<close> block,
    and the status of the statement is the one before the run;
  \<^item> a run that returns has always left the status \<open>completed\<close>.
\<close>

theorem status_after_processing:
  assumes run: "processPdfExpenses env st fileBuffer statementId userId = (st', outcome)"
  shows "(acceptsStatus env st statementId Failed \<longrightarrow>
            (categories_getFullList env st userId = Inr userCategories \<and>
             extractExpensesFromPdf env fileBuffer (map cat_name userCategories) = ([], None) \<longrightarrow>
               outcome = Inl (Error ''AI failed to extract any transactions.'') \<and>
               statusOf st' statementId = Some Failed \<and> expenses st' = expenses st)
          \<and> (categories_getFullList env st userId = Inr userCategories \<and>
             extractExpensesFromPdf env fileBuffer (map cat_name userCategories)
               = (elements, failure) \<and>
             processElements env statementId userId st 0 elements = (st1, Inl err) \<longrightarrow>
               outcome = Inl err \<and> statusOf st' statementId = Some Failed)
          \<and> (categories_getFullList env st userId = Inr userCategories \<and>
             extractExpensesFromPdf env fileBuffer (map cat_name userCategories)
               = (elements, Some err) \<and>
             processElements env statementId userId st 0 elements = (st1, Inr expenseCount) \<longrightarrow>
               outcome = Inl err \<and> statusOf st' statementId = Some Failed)
          \<and> (tryProcess env st fileBuffer statementId userId = (st2, Inl err2) \<longrightarrow>
               outcome = Inl err2 \<and> statusOf st' statementId = Some Failed))
       \<and> (acceptsStatus env st statementId Completed \<longrightarrow>
            (categories_getFullList env st userId = Inr userCategories \<and>
             extractExpensesFromPdf env fileBuffer (map cat_name userCategories)
               = (elements, None) \<and>
             elements \<noteq> [] \<and>
             processElements env statementId userId st 0 elements = (st1, Inr expenseCount) \<longrightarrow>
               outcome = Inr () \<and> statusOf st' statementId = Some Completed))
       \<and> (\<not> acceptsStatus env st statementId Failed \<and>
          tryProcess env st fileBuffer statementId userId = (st2, Inl err2) \<longrightarrow>
            outcome = Inl (refusal env statementId Failed) \<and>
            statusOf st' statementId = statusOf st statementId)
       \<and> (outcome = Inr () \<longrightarrow> statusOf st' statementId = Some Completed)"
proof (intro conjI impI)
  assume acc: "acceptsStatus env st statementId Failed"
    and a: "categories_getFullList env st userId = Inr userCategories \<and>
          extractExpensesFromPdf env fileBuffer (map cat_name userCategories) = ([], None)"
  from acc have ex: "statusOf st statementId \<noteq> None"
    and wf: "fault env (UpdateStatement statementId Failed) = None"
    by (simp_all add: acceptsStatus_def)
  have pe: "processElements env statementId userId st 0 [] = (st, Inr 0)" by simp
  from a tryProcess_unfold [OF _ _ pe, of userCategories fileBuffer None]
  have t: "tryProcess env st fileBuffer statementId userId =
      (st, Inl (Error ''AI failed to extract any transactions.''))" by simp
  from processPdfExpenses_Inl [OF ex wf t] run
  show "outcome = Inl (Error ''AI failed to extract any transactions.'')"
    and "statusOf st' statementId = Some Failed" and "expenses st' = expenses st"
    by simp_all
next
  assume acc: "acceptsStatus env st statementId Failed"
    and a: "categories_getFullList env st userId = Inr userCategories \<and>
          extractExpensesFromPdf env fileBuffer (map cat_name userCategories)
            = (elements, failure) \<and>
          processElements env statementId userId st 0 elements = (st1, Inl err)"
  from acc have ex: "statusOf st statementId \<noteq> None"
    and wf: "fault env (UpdateStatement statementId Failed) = None"
    by (simp_all add: acceptsStatus_def)
  from a have pe: "processElements env statementId userId st 0 elements = (st1, Inl err)"
    by simp
  from a tryProcess_unfold [OF _ _ pe, of userCategories fileBuffer failure]
  have t: "tryProcess env st fileBuffer statementId userId = (st1, Inl err)" by simp
  from processPdfExpenses_Inl [OF ex wf t] run
  show "outcome = Inl err" and "statusOf st' statementId = Some Failed" by simp_all
next
  assume acc: "acceptsStatus env st statementId Failed"
    and a: "categories_getFullList env st userId = Inr userCategories \<and>
          extractExpensesFromPdf env fileBuffer (map cat_name userCategories)
            = (elements, Some err) \<and>
          processElements env statementId userId st 0 elements = (st1, Inr expenseCount)"
  from acc have ex: "statusOf st statementId \<noteq> None"
    and wf: "fault env (UpdateStatement statementId Failed) = None"
    by (simp_all add: acceptsStatus_def)
  from a have pe: "processElements env statementId userId st 0 elements = (st1, Inr expenseCount)"
    by simp
  from a tryProcess_unfold [OF _ _ pe, of userCategories fileBuffer "Some err"]
  have t: "tryProcess env st fileBuffer statementId userId = (st1, Inl err)" by simp
  from processPdfExpenses_Inl [OF ex wf t] run
  show "outcome = Inl err" and "statusOf st' statementId = Some Failed" by simp_all
next
  assume acc: "acceptsStatus env st statementId Failed"
    and t: "tryProcess env st fileBuffer statementId userId = (st2, Inl err2)"
  from acc have ex: "statusOf st statementId \<noteq> None"
    and wf: "fault env (UpdateStatement statementId Failed) = None"
    by (simp_all add: acceptsStatus_def)
  from processPdfExpenses_Inl [OF ex wf t] run
  show "outcome = Inl err2" and "statusOf st' statementId = Some Failed" by simp_all
next
  assume acc: "acceptsStatus env st statementId Completed"
    and a: "categories_getFullList env st userId = Inr userCategories \<and>
          extractExpensesFromPdf env fileBuffer (map cat_name userCategories)
            = (elements, None) \<and>
          elements \<noteq> [] \<and>
          processElements env statementId userId st 0 elements = (st1, Inr expenseCount)"
  from acc have ex: "statusOf st statementId \<noteq> None"
    and wc: "fault env (UpdateStatement statementId Completed) = None"
    by (simp_all add: acceptsStatus_def)
  from a have pe: "processElements env statementId userId st 0 elements = (st1, Inr expenseCount)"
    by simp
  from processElements_count [OF pe] a have n: "expenseCount \<noteq> 0" by simp
  from processElements_effect [OF pe] ex have "statusOf st1 statementId \<noteq> None"
    by (simp add: statusOf_def)
  from updateStatementStatus_ok [OF this wc] obtain s where
    u: "updateStatementStatus env st1 statementId Completed = Inr s"
    and s: "statusOf s statementId = Some Completed" by auto
  from a tryProcess_unfold [OF _ _ pe, of userCategories fileBuffer None] n u
  have "tryProcess env st fileBuffer statementId userId = (s, Inr ())" by simp
  from processPdfExpenses_Inr [OF this] run s
  show "outcome = Inr ()" and "statusOf st' statementId = Some Completed" by simp_all
next
  assume a: "\<not> acceptsStatus env st statementId Failed \<and>
          tryProcess env st fileBuffer statementId userId = (st2, Inl err2)"
  then have refused: "\<not> acceptsStatus env st statementId Failed"
    and t: "tryProcess env st fileBuffer statementId userId = (st2, Inl err2)"
    by simp_all
  from processPdfExpenses_refused [OF refused t] run
  show "outcome = Inl (refusal env statementId Failed)"
    and "statusOf st' statementId = statusOf st statementId"
    by simp_all
next
  assume "outcome = Inr ()"
  with run show "statusOf st' statementId = Some Completed"
    by (simp add: processPdfExpenses_completed)
qed

text \<open>
  Five runs on the statement \<open>s1\<close>, which is in processing. The document yields nothing:
  the run throws and the status is \<open>failed\<close>. It yields the coffee: the run returns and
  the status is \<open>completed\<close>. It yields the coffee and the lookup of the merchant mapping
  fails in the loop: the run throws the error of the lookup and the status is \<open>failed\<close>.
  The stream ends with an error: the run throws this error and the status is \<open>failed\<close>.
  The document yields nothing and the backend refuses the writes of the status: the run
  throws the error of the write and the status is still \<open>processing\<close>.
\<close>

theorem status_after_processing_witness:
  "acceptsStatus exampleEnv uploadStore ''s1'' Failed
   \<and> extractExpensesFromPdf exampleEnv ''%PDF'' (map cat_name [dining]) = ([], None)
   \<and> snd (processPdfExpenses exampleEnv uploadStore ''%PDF'' ''s1'' ''u1'')
       = Inl (Error ''AI failed to extract any transactions.'')
   \<and> statusOf (fst (processPdfExpenses exampleEnv uploadStore ''%PDF'' ''s1'' ''u1'')) ''s1''
       = Some Failed
   \<and> expenses (fst (processPdfExpenses exampleEnv uploadStore ''%PDF'' ''s1'' ''u1'')) = []
   \<and> acceptsStatus coffeeEnv uploadStore ''s1'' Completed
   \<and> processElements coffeeEnv ''s1'' ''u1'' uploadStore 0 [coffeeExpense]
       = (uploadStore\<lparr>expenses := [coffeeRecord]\<rparr>, Inr 1)
   \<and> snd (processPdfExpenses coffeeEnv uploadStore ''%PDF'' ''s1'' ''u1'') = Inr ()
   \<and> statusOf (fst (processPdfExpenses coffeeEnv uploadStore ''%PDF'' ''s1'' ''u1'')) ''s1''
       = Some Completed
   \<and> acceptsStatus lookupsFailEnv uploadStore ''s1'' Failed
   \<and> processElements lookupsFailEnv ''s1'' ''u1'' uploadStore 0 [coffeeExpense]
       = (uploadStore, Inl (Error ''connection refused''))
   \<and> snd (processPdfExpenses lookupsFailEnv uploadStore ''%PDF'' ''s1'' ''u1'')
       = Inl (Error ''connection refused'')
   \<and> statusOf (fst (processPdfExpenses lookupsFailEnv uploadStore ''%PDF'' ''s1'' ''u1'')) ''s1''
       = Some Failed
   \<and> acceptsStatus streamFailsEnv uploadStore ''s1'' Failed
   \<and> extractExpensesFromPdf streamFailsEnv ''%PDF'' (map cat_name [dining])
       = ([], Some (Error ''model overloaded''))
   \<and> snd (processPdfExpenses streamFailsEnv uploadStore ''%PDF'' ''s1'' ''u1'')
       = Inl (Error ''model overloaded'')
   \<and> statusOf (fst (processPdfExpenses streamFailsEnv uploadStore ''%PDF'' ''s1'' ''u1'')) ''s1''
       = Some Failed
   \<and> \<not> acceptsStatus statusWritesFailEnv uploadStore ''s1'' Failed
   \<and> tryProcess statusWritesFailEnv uploadStore ''%PDF'' ''s1'' ''u1''
       = (uploadStore, Inl (Error ''AI failed to extract any transactions.''))
   \<and> snd (processPdfExpenses statusWritesFailEnv uploadStore ''%PDF'' ''s1'' ''u1'')
       = Inl (Error ''service unavailable'')
   \<and> statusOf (fst (processPdfExpenses statusWritesFailEnv uploadStore ''%PDF'' ''s1'' ''u1''))
        ''s1'' = Some Processing"
proof -
  have run: "processPdfExpenses env uploadStore ''%PDF'' ''s1'' ''u1'' =
     (fst (processPdfExpenses env uploadStore ''%PDF'' ''s1'' ''u1''),
      snd (processPdfExpenses env uploadStore ''%PDF'' ''s1'' ''u1''))" for env
    by simp
  have acc: "acceptsStatus exampleEnv uploadStore ''s1'' Failed"
    "acceptsStatus coffeeEnv uploadStore ''s1'' Completed"
    "acceptsStatus lookupsFailEnv uploadStore ''s1'' Failed"
    "\<not> acceptsStatus statusWritesFailEnv uploadStore ''s1'' Failed"
    "acceptsStatus streamFailsEnv uploadStore ''s1'' Failed"
    by (simp_all add: acceptsStatus_def coffee_statement exampleEnv_def coffeeEnv_fields
        lookupsFailEnv_fields statusWritesFailEnv_fields stream_fails)
  have none: "extractExpensesFromPdf exampleEnv ''%PDF'' (map cat_name [dining]) = ([], None)"
    by (simp add: extractExpensesFromPdf_def exampleEnv_def)
  have refusal: "refusal statusWritesFailEnv ''s1'' Failed = Error ''service unavailable''"
    by (simp add: refusal_def statusWritesFailEnv_fields)
  from status_after_processing
         [OF run [of exampleEnv], where userCategories="[dining]" and ?st2.0=uploadStore
            and ?err2.0="Error ''AI failed to extract any transactions.''"]
    acc(1) coffee_listing(4) none status_writes_fail(2)
  have one: "snd (processPdfExpenses exampleEnv uploadStore ''%PDF'' ''s1'' ''u1'')
       = Inl (Error ''AI failed to extract any transactions.'')
    \<and> statusOf (fst (processPdfExpenses exampleEnv uploadStore ''%PDF'' ''s1'' ''u1'')) ''s1''
       = Some Failed
    \<and> expenses (fst (processPdfExpenses exampleEnv uploadStore ''%PDF'' ''s1'' ''u1'')) = []"
    by (simp add: uploadStore_def)
  from status_after_processing
         [OF run [of coffeeEnv], where userCategories="[dining]"
            and elements="[coffeeExpense]"
            and ?st1.0="uploadStore\<lparr>expenses := [coffeeRecord]\<rparr>" and expenseCount=1]
    acc(2) coffee_listing(2) coffee_extract(1) coffee_loop(1)
  have two: "snd (processPdfExpenses coffeeEnv uploadStore ''%PDF'' ''s1'' ''u1'') = Inr ()
    \<and> statusOf (fst (processPdfExpenses coffeeEnv uploadStore ''%PDF'' ''s1'' ''u1'')) ''s1''
       = Some Completed"
    by simp
  from status_after_processing
         [OF run [of lookupsFailEnv], where userCategories="[dining]"
            and elements="[coffeeExpense]" and failure=None and ?st1.0=uploadStore
            and err="Error ''connection refused''"]
    acc(3) lookups_fail
  have three: "snd (processPdfExpenses lookupsFailEnv uploadStore ''%PDF'' ''s1'' ''u1'')
       = Inl (Error ''connection refused'')
    \<and> statusOf (fst (processPdfExpenses lookupsFailEnv uploadStore ''%PDF'' ''s1'' ''u1'')) ''s1''
       = Some Failed"
    by simp
  from status_after_processing
         [OF run [of statusWritesFailEnv], where ?st2.0=uploadStore
            and ?err2.0="Error ''AI failed to extract any transactions.''"]
    acc(4) status_writes_fail(1) refusal
  have four: "snd (processPdfExpenses statusWritesFailEnv uploadStore ''%PDF'' ''s1'' ''u1'')
       = Inl (Error ''service unavailable'')
    \<and> statusOf (fst (processPdfExpenses statusWritesFailEnv uploadStore ''%PDF'' ''s1'' ''u1''))
        ''s1'' = Some Processing"
    by (simp add: coffee_statement)
  from status_after_processing
         [OF run [of streamFailsEnv], where userCategories="[dining]" and elements="[]"
            and err="Error ''model overloaded''" and ?st1.0=uploadStore and expenseCount=0]
    acc(5) stream_fails
  have five: "snd (processPdfExpenses streamFailsEnv uploadStore ''%PDF'' ''s1'' ''u1'')
       = Inl (Error ''model overloaded'')
    \<and> statusOf (fst (processPdfExpenses streamFailsEnv uploadStore ''%PDF'' ''s1'' ''u1'')) ''s1''
       = Some Failed"
    by simp
  from acc none one two three four five coffee_loop(1) lookups_fail(3) status_writes_fail(1)
    stream_fails(3)
  show ?thesis by simp
qed

text \<open>
  Claim C2 as stated fails: the document of the statement \<open>s1\<close> yields no candidate and
  the backend refuses the writes of the status. The run does not leave the status
  \<open>failed\<close>: the statement is still in processing, and the error that reaches the caller
  is the one of the refused write, not the descriptive error of the pipeline.
\<close>

theorem refused_status_write_counterexample:
  "extractExpensesFromPdf statusWritesFailEnv ''%PDF'' [''Dining''] = ([], None)
   \<and> processPdfExpenses statusWritesFailEnv uploadStore ''%PDF'' ''s1'' ''u1''
       = (uploadStore, Inl (Error ''service unavailable''))
   \<and> statusOf uploadStore ''s1'' = Some Processing"
  by (simp add: processPdfExpenses_def tryProcess_def extractExpensesFromPdf_def
      categories_getFullList_def updateStatementStatus_def statements_updateStatus_def
      statusWritesFailEnv_fields uploadStore_def statusOf_def dining_def)

subsection \<open>Failures of the insertion and the status\<close>

lemma case_rel:
  "toLowerCase (env\<lparr>fault := f'\<rparr>) s = toLowerCase env s"
  "toUpperCase (env\<lparr>fault := f'\<rparr>) s = toUpperCase env s"
  by (simp_all add: toLowerCase_def toUpperCase_def)

lemma getOrCreateCategoryByName_rel:
  assumes "f' (ListCategories u) = fault env (ListCategories u)"
      and "f' (CreateCategory u n) = fault env (CreateCategory u n)"
  shows "getOrCreateCategoryByName (env\<lparr>fault := f'\<rparr>) (st\<lparr>expenses := xs\<rparr>) n u =
     (case getOrCreateCategoryByName env st n u of (s, r) \<Rightarrow> (s\<lparr>expenses := xs\<rparr>, r))"
  using assms
  by (simp add: getOrCreateCategoryByName_def categories_getFullList_def categories_create_def
      Let_def case_rel split: option.split sum.split)

lemma convertExpenseToRecord_rel:
  assumes "\<And>req. \<not> isCreateExpense req \<Longrightarrow> f' req = fault env req"
  shows "convertExpenseToRecord (env\<lparr>fault := f'\<rparr>) (st\<lparr>expenses := xs\<rparr>) e sid uid =
     (case convertExpenseToRecord env st e sid uid of (s, r) \<Rightarrow> (s\<lparr>expenses := xs\<rparr>, r))"
proof -
  have g: "getOrCreateCategoryByName (env\<lparr>fault := f'\<rparr>) (st\<lparr>expenses := xs\<rparr>) n uid =
     (case getOrCreateCategoryByName env st n uid of (s, r) \<Rightarrow> (s\<lparr>expenses := xs\<rparr>, r))" for n
    by (rule getOrCreateCategoryByName_rel) (simp_all add: assms isCreateExpense_def)
  have m: "getMerchantMapping (env\<lparr>fault := f'\<rparr>) (st\<lparr>expenses := xs\<rparr>) uid nm =
     getMerchantMapping env st uid nm" for nm
    by (simp add: getMerchantMapping_def merchant_mappings_first_def Let_def assms
        isCreateExpense_def case_rel split: option.split)
  show ?thesis
    by (simp add: convertExpenseToRecord_def Let_def g m createExpenseHash_def
        split: sum.split prod.split)
qed

lemma processElements_rel:
  assumes agree: "\<And>req. \<not> isCreateExpense req \<Longrightarrow> f' req = fault env req"
  shows "\<exists>ys. processElements (env\<lparr>fault := f'\<rparr>) sid uid (st\<lparr>expenses := xs\<rparr>) n els =
     ((fst (processElements env sid uid st n els))\<lparr>expenses := ys\<rparr>,
      snd (processElements env sid uid st n els))"
proof (induction els arbitrary: st xs n)
  case Nil
  show ?case by (rule exI [of _ xs]) simp
next
  case (Cons e els)
  obtain st1 r1 where c: "convertExpenseToRecord env st e sid uid = (st1, r1)"
    by (cases "convertExpenseToRecord env st e sid uid")
  with convertExpenseToRecord_rel
         [OF agree, where st=st and xs=xs and e=e and sid=sid and uid=uid]
  have c': "convertExpenseToRecord (env\<lparr>fault := f'\<rparr>) (st\<lparr>expenses := xs\<rparr>) e sid uid =
      (st1\<lparr>expenses := xs\<rparr>, r1)" by simp
  show ?case
  proof (cases r1)
    case (Inl err)
    with c c' show ?thesis by (auto intro!: exI [of _ xs])
  next
    case (Inr r)
    from c Inr have v: "validateExpenseInsert r = Inr r"
      by (auto intro: convertExpenseToRecord_valid)
    from insertExpenseRecord_shape [OF v, of env st1] obtain ys b where
      i: "insertExpenseRecord env st1 r = (st1\<lparr>expenses := ys\<rparr>, Inr b)" by blast
    from insertExpenseRecord_shape [OF v, of "env\<lparr>fault := f'\<rparr>" "st1\<lparr>expenses := xs\<rparr>"]
    obtain ys' b' where
      i': "insertExpenseRecord (env\<lparr>fault := f'\<rparr>) (st1\<lparr>expenses := xs\<rparr>) r =
             (st1\<lparr>expenses := ys'\<rparr>, Inr b')"
      by auto
    from Cons.IH [where st="st1\<lparr>expenses := ys\<rparr>" and xs=ys' and n="Suc n"] c c' Inr i i'
    show ?thesis by simp
  qed
qed

lemma updateStatementStatus_rel:
  assumes "f' (UpdateStatement sid s) = fault env (UpdateStatement sid s)"
  shows "updateStatementStatus (env\<lparr>fault := f'\<rparr>) (st\<lparr>expenses := xs\<rparr>) sid s =
     (case updateStatementStatus env st sid s of
        Inl err \<Rightarrow> Inl err
      | Inr st2 \<Rightarrow> Inr (st2\<lparr>expenses := xs\<rparr>))"
  using assms
  by (simp add: updateStatementStatus_def statements_updateStatus_def split: option.split)

lemma String_of_rel: "String_of (env\<lparr>fault := f'\<rparr>) v = String_of env v"
  by (simp add: String_of_def cong: option.case_cong)

lemma Number_of_rel: "Number_of (env\<lparr>fault := f'\<rparr>) v = Number_of env v"
  by (simp add: Number_of_def del: js_String.simps
      cong: option.case_cong json.case_cong sum.case_cong)

lemma numberOrZero_rel: "numberOrZero (env\<lparr>fault := f'\<rparr>) v = numberOrZero env v"
  by (simp add: numberOrZero_def Number_of_rel)

lemma field_rel:
  "stringField (env\<lparr>fault := f'\<rparr>) v k d = stringField env v k d"
  "categoryField (env\<lparr>fault := f'\<rparr>) cats v = categoryField env cats v"
  "amountField (env\<lparr>fault := f'\<rparr>) v = amountField env v"
  by (simp_all add: stringField_def categoryField_def amountField_def String_of_rel
      numberOrZero_rel cong: sum.case_cong)

lemma coerce_rel: "coerce (env\<lparr>fault := f'\<rparr>) cats v = coerce env cats v"
  by (simp add: coerce_def field_rel cong: sum.case_cong)

lemma stringSchema_rel: "stringSchema (env\<lparr>fault := f'\<rparr>) cats s = stringSchema env cats s"
  by (simp add: stringSchema_def coerce_rel cong: option.case_cong)

lemma permissiveSchema_rel:
  "permissiveSchema (env\<lparr>fault := f'\<rparr>) cats v = permissiveSchema env cats v"
  by (simp add: permissiveSchema_def coerce_rel cong: json.case_cong)

lemma createPermissiveExpenseSchema_rel:
  "createPermissiveExpenseSchema (env\<lparr>fault := f'\<rparr>) cats =
   createPermissiveExpenseSchema env cats"
  by (rule ext)
     (simp add: createPermissiveExpenseSchema_def stringSchema_rel permissiveSchema_rel
        cong: option.case_cong json.case_cong)

lemma extractExpensesFromPdf_rel:
  "extractExpensesFromPdf (env\<lparr>fault := f'\<rparr>) buf cats = extractExpensesFromPdf env buf cats"
  by (simp add: extractExpensesFromPdf_def createPermissiveExpenseSchema_rel)

lemma tryProcess_rel:
  assumes agree: "\<And>req. \<not> isCreateExpense req \<Longrightarrow> f' req = fault env req"
  shows "\<exists>ys. tryProcess (env\<lparr>fault := f'\<rparr>) (st\<lparr>expenses := xs\<rparr>) buf sid uid =
     ((fst (tryProcess env st buf sid uid))\<lparr>expenses := ys\<rparr>,
      snd (tryProcess env st buf sid uid))"
proof (cases "categories_getFullList env st uid")
  case (Inl err)
  then have "categories_getFullList (env\<lparr>fault := f'\<rparr>) (st\<lparr>expenses := xs\<rparr>) uid = Inl err"
    by (simp add: categories_getFullList_def agree isCreateExpense_def split: option.splits)
  with Inl show ?thesis by (auto simp add: tryProcess_def intro!: exI [of _ xs])
next
  case (Inr cats)
  then have l': "categories_getFullList (env\<lparr>fault := f'\<rparr>) (st\<lparr>expenses := xs\<rparr>) uid
      = Inr cats"
    by (simp add: categories_getFullList_def agree isCreateExpense_def split: option.splits)
  obtain els failure where
    ex: "extractExpensesFromPdf env buf (map cat_name cats) = (els, failure)"
    by (cases "extractExpensesFromPdf env buf (map cat_name cats)")
  then have ex': "extractExpensesFromPdf (env\<lparr>fault := f'\<rparr>) buf (map cat_name cats)
      = (els, failure)"
    by (simp add: extractExpensesFromPdf_rel)
  obtain s res where pe: "processElements env sid uid st 0 els = (s, res)"
    by (cases "processElements env sid uid st 0 els")
  with processElements_rel
         [OF agree, where sid=sid and uid=uid and st=st and xs=xs and n=0 and els=els]
  obtain ys where
    pe': "processElements (env\<lparr>fault := f'\<rparr>) sid uid (st\<lparr>expenses := xs\<rparr>) 0 els
            = (s\<lparr>expenses := ys\<rparr>, res)"
    by auto
  have u: "updateStatementStatus (env\<lparr>fault := f'\<rparr>) (s\<lparr>expenses := ys\<rparr>) sid Completed =
     (case updateStatementStatus env s sid Completed of
        Inl err \<Rightarrow> Inl err
      | Inr st2 \<Rightarrow> Inr (st2\<lparr>expenses := ys\<rparr>))"
    by (rule updateStatementStatus_rel) (simp add: agree isCreateExpense_def)
  show ?thesis
    unfolding tryProcess_unfold [OF Inr ex pe] tryProcess_unfold [OF l' ex' pe']
    by (auto simp add: u split: sum.splits option.splits)
qed

lemma processPdfExpenses_rel:
  assumes agree: "\<And>req. \<not> isCreateExpense req \<Longrightarrow> f' req = fault env req"
  shows "\<exists>ys. processPdfExpenses (env\<lparr>fault := f'\<rparr>) (st\<lparr>expenses := xs\<rparr>) buf sid uid =
     ((fst (processPdfExpenses env st buf sid uid))\<lparr>expenses := ys\<rparr>,
      snd (processPdfExpenses env st buf sid uid))"
proof -
  obtain s res where t: "tryProcess env st buf sid uid = (s, res)"
    by (cases "tryProcess env st buf sid uid")
  with tryProcess_rel [OF agree, where st=st and xs=xs and buf=buf and sid=sid and uid=uid]
  obtain ys where
    t': "tryProcess (env\<lparr>fault := f'\<rparr>) (st\<lparr>expenses := xs\<rparr>) buf sid uid
           = (s\<lparr>expenses := ys\<rparr>, res)"
    by auto
  have u: "updateStatementStatus (env\<lparr>fault := f'\<rparr>) (s\<lparr>expenses := ys\<rparr>) sid Failed =
     (case updateStatementStatus env s sid Failed of
        Inl err \<Rightarrow> Inl err
      | Inr st2 \<Rightarrow> Inr (st2\<lparr>expenses := ys\<rparr>))"
    by (rule updateStatementStatus_rel) (simp add: agree isCreateExpense_def)
  show ?thesis
    by (auto simp add: processPdfExpenses_def t t' u split: sum.splits)
qed

text \<open>
  Claim C10. \<open>insertExpenseRecord\<close>, on the record of a converted candidate, throws
  nothing whatever the error of the creation is: it returns \<open>true\<close> with the expense
  added, or \<open>false\<close> with the store as it is. So the insertions decide nothing of the
  outcome: for two environments that differ at most in the creations of expenses that the
  backend fails, and two stores that differ at most in their expenses, the run returns or
  throws the same value and leaves the same statuses and categories; and when one of the
  two runs returns (the stream has yielded a candidate and nothing outside the insertion
  has thrown), the status of the other is \<open>completed\<close> too, even if each of its
  insertions failed.
\<close>

theorem insert_failures_do_not_decide_the_status:
  assumes env: "sameOutsideInsertion env env'" and st: "sameOutsideExpenses st st'"
  shows "snd (processPdfExpenses env' st' fileBuffer statementId userId)
           = snd (processPdfExpenses env st fileBuffer statementId userId)
       \<and> sameOutsideExpenses (fst (processPdfExpenses env st fileBuffer statementId userId))
           (fst (processPdfExpenses env' st' fileBuffer statementId userId))
       \<and> (snd (processPdfExpenses env st fileBuffer statementId userId) = Inr () \<longrightarrow>
            statusOf (fst (processPdfExpenses env' st' fileBuffer statementId userId)) statementId
              = Some Completed)
       \<and> (convertExpenseToRecord env st expense statementId userId = (st1, Inr expenseRecord) \<longrightarrow>
            insertExpenseRecord env st1 expenseRecord =
              (case expenses_create env st1 expenseRecord of
                 Inr st2 \<Rightarrow> (st2, Inr True)
               | Inl err \<Rightarrow> (st1, Inr False)))"
proof -
  from env have e': "env' = env\<lparr>fault := fault env'\<rparr>"
    and agree: "\<And>req. \<not> isCreateExpense req \<Longrightarrow> fault env' req = fault env req"
    by (simp_all add: sameOutsideInsertion_def)
  from st have s': "st' = st\<lparr>expenses := expenses st'\<rparr>" by (simp add: sameOutsideExpenses_def)
  from processPdfExpenses_rel [OF agree, where st=st and xs="expenses st'" and buf=fileBuffer
      and sid=statementId and uid=userId] e' s'
  obtain ys where rel: "processPdfExpenses env' st' fileBuffer statementId userId =
     ((fst (processPdfExpenses env st fileBuffer statementId userId))\<lparr>expenses := ys\<rparr>,
      snd (processPdfExpenses env st fileBuffer statementId userId))" by auto
  have one: "snd (processPdfExpenses env' st' fileBuffer statementId userId)
           = snd (processPdfExpenses env st fileBuffer statementId userId)"
    by (simp add: rel)
  have two: "sameOutsideExpenses (fst (processPdfExpenses env st fileBuffer statementId userId))
           (fst (processPdfExpenses env' st' fileBuffer statementId userId))"
    by (simp add: rel sameOutsideExpenses_def)
  have three:
    "statusOf (fst (processPdfExpenses env' st' fileBuffer statementId userId)) statementId
       = Some Completed"
    if "snd (processPdfExpenses env st fileBuffer statementId userId) = Inr ()"
  proof -
    from that one have "processPdfExpenses env' st' fileBuffer statementId userId =
      (fst (processPdfExpenses env' st' fileBuffer statementId userId), Inr ())"
      by (metis prod.collapse)
    then show ?thesis by (rule processPdfExpenses_completed)
  qed
  have four: "insertExpenseRecord env st1 expenseRecord =
              (case expenses_create env st1 expenseRecord of
                 Inr st2 \<Rightarrow> (st2, Inr True)
               | Inl err \<Rightarrow> (st1, Inr False))"
    if "convertExpenseToRecord env st expense statementId userId = (st1, Inr expenseRecord)"
    using that by (rule insertExpenseRecord_after_convert)
  from one two three four show ?thesis by blast
qed

text \<open>
  The coffee of statement \<open>s1\<close>: with a backend that creates the expense the run returns;
  with a backend that refuses every creation of an expense the run returns too, the status
  is \<open>completed\<close> and no expense is stored.
\<close>

lemma coffee_run:
  "processPdfExpenses coffeeEnv uploadStore ''%PDF'' ''s1'' ''u1'' =
     (uploadStore\<lparr>expenses := [coffeeRecord], statements := [(''s1'', Completed)]\<rparr>, Inr ())"
proof -
  have "tryProcess coffeeEnv uploadStore ''%PDF'' ''s1'' ''u1'' =
     (uploadStore\<lparr>expenses := [coffeeRecord], statements := [(''s1'', Completed)]\<rparr>, Inr ())"
    unfolding tryProcess_unfold [OF coffee_listing(2) coffee_extract(1) coffee_loop(1)]
    by (simp add: updateStatementStatus_def statements_updateStatus_def coffeeEnv_fields
        uploadStore_def)
  then show ?thesis by (rule processPdfExpenses_Inr)
qed

lemma coffee_run_inserts_fail:
  "expenses (fst (processPdfExpenses insertsFailEnv uploadStore ''%PDF'' ''s1'' ''u1'')) = []"
proof -
  have "tryProcess insertsFailEnv uploadStore ''%PDF'' ''s1'' ''u1'' =
     (uploadStore\<lparr>statements := [(''s1'', Completed)]\<rparr>, Inr ())"
    unfolding tryProcess_unfold [OF coffee_listing(3) coffee_extract(2) coffee_loop(2)]
    by (simp add: updateStatementStatus_def statements_updateStatus_def insertsFailEnv_fields
        uploadStore_def)
  from processPdfExpenses_Inr [OF this] show ?thesis by (simp add: uploadStore_def)
qed

theorem insert_failures_do_not_decide_the_status_witness:
  "sameOutsideInsertion coffeeEnv insertsFailEnv
   \<and> sameOutsideExpenses uploadStore uploadStore
   \<and> snd (processPdfExpenses coffeeEnv uploadStore ''%PDF'' ''s1'' ''u1'') = Inr ()
   \<and> snd (processPdfExpenses insertsFailEnv uploadStore ''%PDF'' ''s1'' ''u1'') = Inr ()
   \<and> statusOf (fst (processPdfExpenses insertsFailEnv uploadStore ''%PDF'' ''s1'' ''u1'')) ''s1''
       = Some Completed
   \<and> expenses (fst (processPdfExpenses insertsFailEnv uploadStore ''%PDF'' ''s1'' ''u1'')) = []"
proof -
  have agree: "fault insertsFailEnv req = fault coffeeEnv req" if "\<not> isCreateExpense req" for req
    using that by (cases req) (simp_all add: insertsFailEnv_fields coffeeEnv_fields
        isCreateExpense_def)
  have env: "sameOutsideInsertion coffeeEnv insertsFailEnv"
    unfolding sameOutsideInsertion_def
  proof (intro conjI allI impI)
    show "insertsFailEnv = coffeeEnv\<lparr>fault := fault insertsFailEnv\<rparr>"
      by (simp add: insertsFailEnv_def)
  qed (rule agree)
  have st: "sameOutsideExpenses uploadStore uploadStore"
    by (simp add: sameOutsideExpenses_def)
  from insert_failures_do_not_decide_the_status
         [OF env st, of "''%PDF''" "''s1''" "''u1''"]
    env st coffee_run coffee_run_inserts_fail
  show ?thesis by simp
qed

end
